theory Spec2Isabelle
  imports Complex_Main "HOL-Library.Product_Lexorder" "HOL-Library.Sublist"
begin

section \<open>Exceptions and Python values\<close>

text \<open>
  Every exception of \<^verbatim>\<open>kinescope/downloader.py\<close> is a value: an operation returns
  \<open>exn + 'a\<close> with \<open>Inl\<close> for a raise. Each constructor carries the message that
  \<^verbatim>\<open>str(e)\<close> prints. \<open>LibraryError\<close> stands for any other subclass of
  \<^verbatim>\<open>Exception\<close> that a library call may raise (class name, message). Exceptions outside
  \<^verbatim>\<open>Exception\<close> (a keyboard interrupt) are not modelled.
  A Python \<^verbatim>\<open>str\<close> is a \<open>string\<close>; \<^verbatim>\<open>bytes\<close> is too.
\<close>

datatype exn =
    FFmpegNotFoundError string
  | Mp4DecryptNotFoundError string
  | SegmentDownloadError string
  | InvalidResolution string
  | RuntimeError string
  | ValueError string
  | IndexError string
  | TypeError string
  | AttributeError string
  | FileNotFoundError string
  | ChunkedEncodingError string
  | LibraryError string string

fun str_exn :: "exn \<Rightarrow> string" where
  "str_exn (FFmpegNotFoundError m) = m"
| "str_exn (Mp4DecryptNotFoundError m) = m"
| "str_exn (SegmentDownloadError m) = m"
| "str_exn (InvalidResolution m) = m"
| "str_exn (RuntimeError m) = m"
| "str_exn (ValueError m) = m"
| "str_exn (IndexError m) = m"
| "str_exn (TypeError m) = m"
| "str_exn (AttributeError m) = m"
| "str_exn (FileNotFoundError m) = m"
| "str_exn (ChunkedEncodingError m) = m"
| "str_exn (LibraryError c m) = m"

text \<open>Truthiness of an optional string: \<^verbatim>\<open>None\<close> and \<^verbatim>\<open>''\<close> are falsy.\<close>

fun truthy :: "string option \<Rightarrow> bool" where
  "truthy None = False"
| "truthy (Some s) = (s \<noteq> [])"

text \<open>\<^verbatim>\<open>xs.index(x)\<close>: the first position of \<open>x\<close>, ValueError when it is absent.\<close>

fun py_index :: "'a list \<Rightarrow> 'a \<Rightarrow> exn + nat" where
  "py_index [] x = Inl (ValueError ''x is not in list'')"
| "py_index (y # ys) x =
     (if y = x then Inr 0
      else (case py_index ys x of Inl e \<Rightarrow> Inl e | Inr i \<Rightarrow> Inr (Suc i)))"

text \<open>
  \<^verbatim>\<open>xs[i]\<close> on a list attribute that the parser leaves \<^verbatim>\<open>None\<close> when the element is
  absent: TypeError on \<^verbatim>\<open>None\<close>, IndexError out of range.
\<close>

fun subscript :: "'a list option \<Rightarrow> nat \<Rightarrow> exn + 'a" where
  "subscript None i = Inl (TypeError ''NoneType object is not subscriptable'')"
| "subscript (Some xs) i =
     (if i < length xs then Inr (xs ! i) else Inl (IndexError ''list index out of range''))"

section \<open>The parsed HLS master playlist\<close>

text \<open>
  What \<^verbatim>\<open>m3u8.loads\<close> returns, as far as \<^verbatim>\<open>get_hls_variants\<close> reads it: the variant
  playlists with their stream information, and the media entries. The attributes
  \<^verbatim>\<open>default\<close> and \<^verbatim>\<open>autoselect\<close> are the strings of the playlist (or absent), and the
  code tests their truthiness.
\<close>

record hls_playlist =
  pl_uri :: string
  pl_resolution :: "(int \<times> int) option"
  pl_bandwidth :: "int option"
  pl_audio :: "string option"

record hls_media =
  m_type :: "string option"
  m_group_id :: "string option"
  m_language :: "string option"
  m_default :: "string option"
  m_autoselect :: "string option"
  m_uri :: "string option"

record m3u8 =
  playlists :: "hls_playlist list"
  media :: "hls_media list"

text \<open>A variant is the tuple \<^verbatim>\<open>(res, bw, video_uri, audio_uri)\<close> of the source.\<close>

type_synonym variant = "(int \<times> int) option \<times> int \<times> string \<times> string option"

definition v_res :: "variant \<Rightarrow> (int \<times> int) option" where
  "v_res v = fst v"

definition v_bw :: "variant \<Rightarrow> int" where
  "v_bw v = fst (snd v)"

definition v_video_uri :: "variant \<Rightarrow> string" where
  "v_video_uri v = fst (snd (snd v))"

definition v_audio_uri :: "variant \<Rightarrow> string option" where
  "v_audio_uri v = snd (snd (snd v))"

text \<open>
  \<^verbatim>\<open>audio_by_group.setdefault(m.group_id, []).append(m)\<close>: a dictionary in insertion
  order, as an association list.
\<close>

definition setdefault_append ::
  "(string \<times> hls_media list) list \<Rightarrow> string \<Rightarrow> hls_media \<Rightarrow> (string \<times> hls_media list) list" where
  "setdefault_append d k m =
     (case map_of d k of
        None \<Rightarrow> d @ [(k, [m])]
      | Some ms \<Rightarrow> map (\<lambda>(k', v). if k' = k then (k', ms @ [m]) else (k', v)) d)"

definition audio_by_group :: "m3u8 \<Rightarrow> (string \<times> hls_media list) list" where
  "audio_by_group pl =
     foldl (\<lambda>d m.
        (case m_group_id m of
           Some g \<Rightarrow> if m_type m = Some ''AUDIO'' \<and> g \<noteq> [] then setdefault_append d g m else d
         | None \<Rightarrow> d))
       [] (media pl)"

text \<open>
  \<^verbatim>\<open>_lang_rank\<close>, with \<^verbatim>\<open>str.lower\<close> a parameter (\<open>lower\<close>) since it is the
  library's Unicode lowering.
\<close>

definition lang_rank :: "(string \<Rightarrow> string) \<Rightarrow> string option \<Rightarrow> hls_media \<Rightarrow> nat \<times> nat \<times> nat" where
  "lang_rank lower preferred x =
     (let exact = (case (preferred, m_language x) of
                     (Some p, Some l) \<Rightarrow> p \<noteq> [] \<and> l \<noteq> [] \<and> lower l = lower p
                   | _ \<Rightarrow> False);
          pre = (case (preferred, m_language x) of
                     (Some p, Some l) \<Rightarrow> p \<noteq> [] \<and> l \<noteq> [] \<and> prefix (lower p) (lower l)
                   | _ \<Rightarrow> False)
      in (if exact then 0 else (if pre then 1 else 2),
          if truthy (m_default x) then 0 else 1,
          if truthy (m_autoselect x) then 0 else 1))"

definition best_audio_uri ::
  "(string \<Rightarrow> string \<Rightarrow> string) \<Rightarrow> (string \<Rightarrow> string) \<Rightarrow> string option \<Rightarrow> string
     \<Rightarrow> hls_media list \<Rightarrow> string option" where
  "best_audio_uri urljoin lower preferred playlist_url medias =
     (case sort_key (lang_rank lower preferred) (filter (\<lambda>m. truthy (m_uri m)) medias) of
        [] \<Rightarrow> None
      | cand # _ \<Rightarrow> (case m_uri cand of None \<Rightarrow> None | Some u \<Rightarrow> Some (urljoin playlist_url u)))"

definition pick_audio_uri_for_group ::
  "(string \<Rightarrow> string \<Rightarrow> string) \<Rightarrow> (string \<Rightarrow> string) \<Rightarrow> string option \<Rightarrow> string
     \<Rightarrow> (string \<times> hls_media list) list \<Rightarrow> string option \<Rightarrow> string option" where
  "pick_audio_uri_for_group urljoin lower preferred playlist_url abg group_id =
     (case (case group_id of None \<Rightarrow> None | Some g \<Rightarrow> if g \<noteq> [] then map_of abg g else None) of
        Some medias \<Rightarrow> best_audio_uri urljoin lower preferred playlist_url medias
      | None \<Rightarrow>
          (case abg of
             [(g, only_group)] \<Rightarrow> best_audio_uri urljoin lower preferred playlist_url only_group
           | _ \<Rightarrow> None))"

text \<open>The sort key of line 382: \<^verbatim>\<open>(x[0][1] if x[0] else 0, x[1])\<close>.\<close>

definition variant_key :: "variant \<Rightarrow> int \<times> int" where
  "variant_key x = ((case v_res x of Some (w, h) \<Rightarrow> h | None \<Rightarrow> 0), v_bw x)"

text \<open>
  The body of \<^verbatim>\<open>get_hls_variants\<close> once the master playlist is loaded: one tuple per
  entry of \<^verbatim>\<open>pl.playlists\<close>, then the stable sort by \<open>variant_key\<close>.
\<close>

definition variant_of ::
  "(string \<Rightarrow> string \<Rightarrow> string) \<Rightarrow> (string \<Rightarrow> string) \<Rightarrow> string option \<Rightarrow> string
     \<Rightarrow> (string \<times> hls_media list) list \<Rightarrow> hls_playlist \<Rightarrow> variant" where
  "variant_of urljoin lower preferred playlist_url abg v =
     (pl_resolution v,
      (case pl_bandwidth v of None \<Rightarrow> 0 | Some b \<Rightarrow> b),
      urljoin playlist_url (pl_uri v),
      pick_audio_uri_for_group urljoin lower preferred playlist_url abg (pl_audio v))"

definition hls_variants_of ::
  "(string \<Rightarrow> string \<Rightarrow> string) \<Rightarrow> (string \<Rightarrow> string) \<Rightarrow> string option \<Rightarrow> string
     \<Rightarrow> m3u8 \<Rightarrow> variant list" where
  "hls_variants_of urljoin lower preferred playlist_url pl =
     sort_key variant_key
       (map (variant_of urljoin lower preferred playlist_url (audio_by_group pl)) (playlists pl))"

text \<open>
  The body of \<^verbatim>\<open>_select_hls_variant_urls\<close> on the list that \<^verbatim>\<open>get_hls_variants\<close>
  returned. A desired resolution is a pair, always truthy, so only \<^verbatim>\<open>None\<close> takes the
  last branch.
\<close>

definition height_leq :: "int \<Rightarrow> variant \<Rightarrow> bool" where
  "height_leq target_h v = (case v_res v of None \<Rightarrow> False | Some (w, h) \<Rightarrow> h \<le> target_h)"

definition select_variant ::
  "string \<Rightarrow> variant list \<Rightarrow> (int option \<times> int) option \<Rightarrow> string \<times> string option" where
  "select_variant playlist_url variants desired_resolution =
     (if variants = [] then (playlist_url, None)
      else
        (let chosen =
           (case desired_resolution of
              Some (w, target_h) \<Rightarrow>
                (let leq = filter (height_leq target_h) variants
                 in if leq \<noteq> [] then last leq else last variants)
            | None \<Rightarrow> last variants)
         in (v_video_uri chosen, v_audio_uri chosen)))"

section \<open>The parsed DASH manifest\<close>

text \<open>
  What \<^verbatim>\<open>MPEGDASHParser.parse\<close> returns, as far as the downloader reads it. Every
  attribute and every child list is optional in the parser's output.
\<close>

record segment_url =
  su_media :: "string option"

record segment_list =
  segment_urls :: "segment_url list option"

record representation =
  r_width :: "int option"
  r_height :: "int option"
  segment_lists :: "segment_list list option"

record content_protection =
  cenc_default_kid :: "string option"

record adaptation_set =
  mime_type :: "string option"
  representations :: "representation list option"
  content_protections :: "content_protection list option"

record period =
  adaptation_sets :: "adaptation_set list option"

record mpd =
  periods :: "period list option"

section \<open>The downloader's state and its collaborators\<close>

text \<open>
  A subprocess that has run: the lines of its two pipes, its exit code, and what it wrote to
  its output path (\<open>None\<close>: it left the path as it was).
\<close>

record proc =
  p_stdout :: "string list"
  p_stderr :: "string list"
  p_returncode :: int
  p_output :: "string option"

text \<open>
  A Python float: a finite one, taken as the real number it denotes, an infinity, or NaN
  (\<^verbatim>\<open>float('nan')\<close> and \<^verbatim>\<open>float('inf')\<close> parse). \<open>float_le x c\<close> is \<^verbatim>\<open>x <= c\<close> for a finite
  constant \<open>c\<close>: every comparison with NaN is false.
\<close>

datatype pyfloat = Finite real | PosInf | NegInf | NaN

fun float_le :: "pyfloat \<Rightarrow> real \<Rightarrow> bool" where
  "float_le (Finite x) c = (x \<le> c)"
| "float_le PosInf c = False"
| "float_le NegInf c = True"
| "float_le NaN c = False"

text \<open>What \<^verbatim>\<open>_verify_output_or_raise\<close> reads of ffprobe's JSON: the
  \<^verbatim>\<open>codec_type\<close> of each stream, and the float that lines 424 to 427 compute for
  \<^verbatim>\<open>duration\<close> (0.0 when the field is absent or falsy, or when \<^verbatim>\<open>float\<close> raises). 0.5 is
  exact in binary.\<close>

record probe_meta =
  streams :: "string option list"
  duration :: pyfloat

text \<open>The calls that leave the process, in the order they are made.\<close>

datatype call =
    GetHlsMaster string
  | GetMpd string
  | PostLicense string string
  | GetSegment string
  | Popen "string list"
  | Ffprobe "string list"

text \<open>
  \<open>env\<close> holds what does not change during \<^verbatim>\<open>download()\<close>: the instance fields
  that the method only reads, the three URLs of \<^verbatim>\<open>KinescopeVideo\<close> (its module is not
  part of the sources at hand, so its methods' results are parameters), the library
  functions, and the outside world. A collaborator's answer may depend on its arguments and
  on how many calls were made before it (the first argument), so that it can fail once and
  succeed later:
  \<^item> \<open>load_hls_master_io\<close>: the GET, \<^verbatim>\<open>raise_for_status\<close> and \<^verbatim>\<open>m3u8.loads\<close> of
    \<^verbatim>\<open>_load_hls_master\<close>;
  \<^item> \<open>fetch_mpd_io\<close>: the GET and the parse of \<^verbatim>\<open>_fetch_mpd_master\<close>;
  \<^item> \<open>b64_kid\<close>: \<^verbatim>\<open>b64encode(bytes.fromhex(kid_hex)).decode().replace('=', '')\<close>;
  \<^item> \<open>license_io\<close>: the POST of \<^verbatim>\<open>_get_license_key\<close> and the decoding of its answer
    (line 261), at the URL and for the key id given;
  \<^item> \<open>segment_io\<close>: the GET of one segment and the read of its content;
  \<^item> \<open>popen_io\<close>: \<^verbatim>\<open>Popen\<close> of a command line, run to its end;
  \<^item> \<open>which_ffprobe\<close>: \<^verbatim>\<open>_ffprobe_path\<close>;
  \<^item> \<open>ffprobe_io\<close>: \<^verbatim>\<open>subprocess.run\<close> of ffprobe with \<^verbatim>\<open>check=True\<close> on a file of
    the given content, giving its standard output;
  \<^item> \<open>json_loads\<close>: \<^verbatim>\<open>json.loads\<close> and the reads of lines 422 to 428;
  \<^item> \<open>parse_out_time\<close>: \<^verbatim>\<open>int(line.split("=")[1].strip())\<close>.
\<close>

record env =
  video_id :: string
  temp_path :: string
  base_url :: string
  cdn_referer :: string
  ffmpeg_path :: string
  mp4decrypt_path :: string
  preferred_audio_lang :: "string option"
  hls_master_playlist_url :: string
  mpd_master_playlist_url :: string
  clearkey_license_url :: string
  urljoin :: "string \<Rightarrow> string \<Rightarrow> string"
  lower :: "string \<Rightarrow> string"
  with_suffix_mp4 :: "string \<Rightarrow> string"
  str_int :: "int \<Rightarrow> string"
  b64_kid :: "string \<Rightarrow> exn + string"
  json_loads :: "string \<Rightarrow> exn + probe_meta"
  parse_out_time :: "string \<Rightarrow> exn + int"
  load_hls_master_io :: "nat \<Rightarrow> string \<Rightarrow> exn + m3u8"
  fetch_mpd_io :: "nat \<Rightarrow> string \<Rightarrow> exn + mpd"
  license_io :: "nat \<Rightarrow> string \<Rightarrow> string \<Rightarrow> exn + string"
  segment_io :: "nat \<Rightarrow> string \<Rightarrow> exn + string"
  popen_io :: "nat \<Rightarrow> string list \<Rightarrow> exn + proc"
  which_ffprobe :: "nat \<Rightarrow> string option"
  ffprobe_io :: "nat \<Rightarrow> string list \<Rightarrow> string option \<Rightarrow> exn + string"

text \<open>
  \<open>state\<close> holds what \<^verbatim>\<open>download()\<close> changes: the three instance fields it assigns,
  the regular files (path to content), the calls made so far, and what was printed.
  The progress bars are not part of \<open>out\<close>.
\<close>

record state =
  playlist_url :: string
  playlist_type :: string
  mpd_master :: "mpd option"
  fs :: "string \<Rightarrow> string option"
  calls :: "call list"
  out :: "string list"

definition print :: "string \<Rightarrow> state \<Rightarrow> state" where
  "print msg s = s\<lparr>out := out s @ [msg]\<rparr>"

definition log_call :: "call \<Rightarrow> state \<Rightarrow> state" where
  "log_call c s = s\<lparr>calls := calls s @ [c]\<rparr>"

definition write_file :: "string \<Rightarrow> string \<Rightarrow> state \<Rightarrow> state" where
  "write_file path content s = s\<lparr>fs := (fs s)(path \<mapsto> content)\<rparr>"

text \<open>\<^verbatim>\<open>Path.unlink(missing_ok=True)\<close>.\<close>

definition unlink :: "string \<Rightarrow> state \<Rightarrow> state" where
  "unlink path s = s\<lparr>fs := (fs s)(path := None)\<rparr>"

text \<open>\<^verbatim>\<open>Path.rename\<close>: the source must exist; the target is replaced.\<close>

definition rename :: "string \<Rightarrow> string \<Rightarrow> state \<Rightarrow> (exn + unit) \<times> state" where
  "rename src dst s =
     (case fs s src of
        None \<Rightarrow> (Inl (FileNotFoundError src), s)
      | Some content \<Rightarrow> (Inr (), s\<lparr>fs := ((fs s)(src := None))(dst \<mapsto> content)\<rparr>))"

text \<open>Sequencing: the second step runs only when the first did not raise.\<close>

definition bind ::
  "(exn + 'a) \<times> state \<Rightarrow> ('a \<Rightarrow> state \<Rightarrow> (exn + 'b) \<times> state) \<Rightarrow> (exn + 'b) \<times> state" where
  "bind r f = (case r of (Inl e, s) \<Rightarrow> (Inl e, s) | (Inr x, s) \<Rightarrow> f x s)"

text \<open>\<^verbatim>\<open>self.temp_path / name\<close>.\<close>

definition temp_file :: "env \<Rightarrow> string \<Rightarrow> string" where
  "temp_file E name = temp_path E @ ''/'' @ name"

text \<open>The same for a step that has no effect.\<close>

definition bindE :: "exn + 'a \<Rightarrow> ('a \<Rightarrow> exn + 'b) \<Rightarrow> exn + 'b" where
  "bindE r f = (case r of Inl e \<Rightarrow> Inl e | Inr x \<Rightarrow> f x)"

section \<open>HLS: listing and selecting variants\<close>

definition load_hls_master :: "env \<Rightarrow> state \<Rightarrow> (exn + m3u8) \<times> state" where
  "load_hls_master E s =
     (load_hls_master_io E (length (calls s)) (playlist_url s),
      log_call (GetHlsMaster (playlist_url s)) s)"

definition get_hls_variants :: "env \<Rightarrow> state \<Rightarrow> (exn + variant list) \<times> state" where
  "get_hls_variants E s =
     bind (load_hls_master E s)
       (\<lambda>pl s'. (Inr (hls_variants_of (urljoin E) (lower E) (preferred_audio_lang E)
                         (playlist_url s') pl), s'))"

definition select_hls_variant_urls ::
  "env \<Rightarrow> (int option \<times> int) option \<Rightarrow> state \<Rightarrow> (exn + string \<times> string option) \<times> state" where
  "select_hls_variant_urls E desired_resolution s =
     bind (get_hls_variants E s)
       (\<lambda>variants s'. (Inr (select_variant (playlist_url s') variants desired_resolution), s'))"

section \<open>The subprocesses\<close>

text \<open>
  The command line of \<^verbatim>\<open>_download_hls_via_ffmpeg\<close>. The two requests for the playlists'
  durations before it only size the progress bar and their failures are swallowed: they
  are left out.
\<close>

definition hls_ffmpeg_args :: "env \<Rightarrow> string \<Rightarrow> string option \<Rightarrow> string \<Rightarrow> string list" where
  "hls_ffmpeg_args E video_m3u8_url audio_m3u8_url target_filepath =
     [ffmpeg_path E, ''-headers'', ''Referer: '' @ cdn_referer E, ''-i'', video_m3u8_url]
     @ (case audio_m3u8_url of
          Some a \<Rightarrow>
            if a \<noteq> [] then
              [''-headers'', ''Referer: '' @ cdn_referer E, ''-i'', a,
               ''-map'', ''0:v:0'', ''-map'', ''1:a:0?'', ''-map'', ''0:a:0?'']
            else [''-map'', ''0:v:0'', ''-map'', ''0:a:0?'']
        | None \<Rightarrow> [''-map'', ''0:v:0'', ''-map'', ''0:a:0?''])
     @ [''-c'', ''copy'', ''-sn'', ''-f'', ''mp4'', target_filepath, ''-y'',
        ''-progress'', ''pipe:1'', ''-nostats'', ''-loglevel'', ''error'']"

text \<open>
  Both progress loops (lines 195 and 205) parse every line that starts with
  \<^verbatim>\<open>out_time_ms\<close>; a line that does not parse raises out of the loop, past the
  \<^verbatim>\<open>finally\<close> that waits for the process.
\<close>

fun progress_loop :: "env \<Rightarrow> string list \<Rightarrow> exn + unit" where
  "progress_loop E [] = Inr ()"
| "progress_loop E (line # rest) =
     (if prefix ''out_time_ms'' line then
        (case parse_out_time E line of Inl e \<Rightarrow> Inl e | Inr ms \<Rightarrow> progress_loop E rest)
      else progress_loop E rest)"

definition run_popen :: "env \<Rightarrow> string list \<Rightarrow> string \<Rightarrow> state \<Rightarrow> (exn + proc) \<times> state" where
  "run_popen E args target s =
     (let s1 = log_call (Popen args) s in
      case popen_io E (length (calls s)) args of
        Inl e \<Rightarrow> (Inl e, s1)
      | Inr p \<Rightarrow> (Inr p, (case p_output p of None \<Rightarrow> s1 | Some c \<Rightarrow> write_file target c s1)))"

definition ffmpeg_failed :: "env \<Rightarrow> proc \<Rightarrow> exn" where
  "ffmpeg_failed E p =
     RuntimeError (''ffmpeg failed with code '' @ str_int E (p_returncode p) @ ''. Trace:''
                   @ [CHR 0x0A] @ concat (drop (length (p_stderr p) - 20) (p_stderr p)))"

definition download_hls_via_ffmpeg ::
  "env \<Rightarrow> string \<Rightarrow> string option \<Rightarrow> string \<Rightarrow> state \<Rightarrow> (exn + unit) \<times> state" where
  "download_hls_via_ffmpeg E video_m3u8_url audio_m3u8_url target_filepath s =
     bind (run_popen E (hls_ffmpeg_args E video_m3u8_url audio_m3u8_url target_filepath)
             target_filepath s)
       (\<lambda>p s2.
          (case progress_loop E (p_stdout p) of
             Inl e \<Rightarrow> (Inl e, s2)
           | Inr u \<Rightarrow>
               if p_returncode p \<noteq> 0 then (Inl (ffmpeg_failed E p), unlink target_filepath s2)
               else (Inr (), s2)))"

definition merge_tracks :: "env \<Rightarrow> string \<Rightarrow> string \<Rightarrow> string \<Rightarrow> state \<Rightarrow> (exn + unit) \<times> state" where
  "merge_tracks E source_video_filepath source_audio_filepath target_filepath s =
     (case run_popen E
             [ffmpeg_path E, ''-i'', source_video_filepath, ''-i'', source_audio_filepath,
              ''-c'', ''copy'', target_filepath, ''-y'', ''-loglevel'', ''error'']
             target_filepath s of
        (Inl (FileNotFoundError m), s1) \<Rightarrow>
          (Inl (FFmpegNotFoundError ''FFmpeg binary was not found at the specified path''), s1)
      | (Inl e, s1) \<Rightarrow> (Inl e, s1)
      | (Inr p, s1) \<Rightarrow> (Inr (), s1))"

definition decrypt_video :: "env \<Rightarrow> string \<Rightarrow> string \<Rightarrow> string \<Rightarrow> state \<Rightarrow> (exn + unit) \<times> state" where
  "decrypt_video E source_filepath target_filepath key s =
     (case run_popen E
             [mp4decrypt_path E, ''--key'', ''1:'' @ key, source_filepath, target_filepath]
             target_filepath s of
        (Inl (FileNotFoundError m), s1) \<Rightarrow>
          (Inl (Mp4DecryptNotFoundError ''mp4decrypt binary was not found at the specified path''), s1)
      | (Inl e, s1) \<Rightarrow> (Inl e, s1)
      | (Inr p, s1) \<Rightarrow> (Inr (), s1))"

section \<open>The license key\<close>

definition first_adaptation_set :: "mpd \<Rightarrow> exn + adaptation_set" where
  "first_adaptation_set m =
     bindE (subscript (periods m) 0) (\<lambda>p. subscript (adaptation_sets p) 0)"

definition get_license_key :: "env \<Rightarrow> state \<Rightarrow> (exn + string option) \<times> state" where
  "get_license_key E s =
     (case mpd_master s of
        None \<Rightarrow> (Inr None, s)
      | Some m \<Rightarrow>
          (case first_adaptation_set m of
             Inl e \<Rightarrow> (Inl e, s)
           | Inr a \<Rightarrow>
               (case content_protections a of
                  None \<Rightarrow> (Inr None, s)
                | Some [] \<Rightarrow> (Inr None, s)
                | Some (cp # cps) \<Rightarrow>
                    (case cenc_default_kid cp of
                       None \<Rightarrow> (Inl (AttributeError ''NoneType object has no attribute replace''), s)
                     | Some kid \<Rightarrow>
                         (case b64_kid E (filter (\<lambda>c. c \<noteq> CHR ''-'') kid) of
                            Inl e \<Rightarrow> (Inl e, s)
                          | Inr k \<Rightarrow>
                              (case license_io E (length (calls s)) (clearkey_license_url E) k of
                                 Inl e \<Rightarrow> (Inl e, log_call (PostLicense (clearkey_license_url E) k) s)
                               | Inr key \<Rightarrow>
                                   (Inr (Some key),
                                    log_call (PostLicense (clearkey_license_url E) k) s)))))))"

section \<open>Fetching segments\<close>

text \<open>
  \<^verbatim>\<open>_fetch_segment\<close>: the loop \<^verbatim>\<open>for _ in range(5)\<close> with the attempts that remain as
  the first argument. The content is appended to the open file.
\<close>

definition segment_request_url :: "env \<Rightarrow> string \<Rightarrow> string" where
  "segment_request_url E segment_url =
     (if prefix ''http'' segment_url then segment_url else urljoin E (base_url E) segment_url)"

fun fetch_attempts :: "nat \<Rightarrow> env \<Rightarrow> string \<Rightarrow> string \<Rightarrow> state \<Rightarrow> (exn + unit) \<times> state" where
  "fetch_attempts 0 E segment_url file s =
     (Inl (SegmentDownloadError (''Failed to download segment '' @ segment_url)), s)"
| "fetch_attempts (Suc n) E segment_url file s =
     (let url = segment_request_url E segment_url;
          s1 = log_call (GetSegment url) s
      in case segment_io E (length (calls s)) url of
           Inr content \<Rightarrow>
             (Inr (), write_file file ((case fs s1 file of None \<Rightarrow> [] | Some old \<Rightarrow> old) @ content) s1)
         | Inl (ChunkedEncodingError m) \<Rightarrow> fetch_attempts n E segment_url file s1
         | Inl e \<Rightarrow> (Inl e, s1))"

definition fetch_segment :: "env \<Rightarrow> string \<Rightarrow> string \<Rightarrow> state \<Rightarrow> (exn + unit) \<times> state" where
  "fetch_segment E segment_url file s = fetch_attempts 5 E segment_url file s"

text \<open>Line 283: the segments that are truthy and stand at their own first position.\<close>

definition dedup_segments :: "string list \<Rightarrow> string list" where
  "dedup_segments segments_urls =
     map snd (filter (\<lambda>(i, seg). seg \<noteq> [] \<and> py_index segments_urls seg = Inr i)
                (enumerate 0 segments_urls))"

fun fetch_each :: "env \<Rightarrow> string list \<Rightarrow> string \<Rightarrow> state \<Rightarrow> (exn + unit) \<times> state" where
  "fetch_each E [] file s = (Inr (), s)"
| "fetch_each E (segment_url # rest) file s =
     bind (fetch_segment E segment_url file s) (\<lambda>u s1. fetch_each E rest file s1)"

definition fetch_segments :: "env \<Rightarrow> string list \<Rightarrow> string \<Rightarrow> state \<Rightarrow> (exn + unit) \<times> state" where
  "fetch_segments E segments_urls filepath s =
     fetch_each E (dedup_segments segments_urls) filepath (write_file filepath [] s)"

section \<open>DASH: resolutions and segment lists\<close>

text \<open>
  A resolution is \<^verbatim>\<open>(width, height)\<close>. The height is a number wherever the code has
  one: the caller gives one, and \<^verbatim>\<open>get_resolutions\<close> returns heights that it sorted. The
  width is what the manifest holds.
\<close>

type_synonym resolution = "int option \<times> int"

fun truthy_int :: "int option \<Rightarrow> bool" where
  "truthy_int None = False"
| "truthy_int (Some n) = (n \<noteq> 0)"

text \<open>
  The value of one entry of the dictionary comprehension of \<^verbatim>\<open>_get_segments_urls\<close>:
  the index is looked up only when the first representation has a truthy height, otherwise
  it is 0.
\<close>

definition rep_resolution :: "representation \<Rightarrow> int option \<times> int option" where
  "rep_resolution r = (r_width r, r_height r)"

definition representation_index :: "resolution \<Rightarrow> representation list \<Rightarrow> exn + nat" where
  "representation_index res reps =
     (case reps of
        [] \<Rightarrow> Inl (IndexError ''list index out of range'')
      | r0 # rest \<Rightarrow>
          if truthy_int (r_height r0)
          then py_index (map rep_resolution reps) (fst res, Some (snd res))
          else Inr 0)"

definition media_of :: "segment_url list \<Rightarrow> string list" where
  "media_of us = concat (map (\<lambda>u. case su_media u of None \<Rightarrow> [] | Some m \<Rightarrow> [m]) us)"

text \<open>\<^verbatim>\<open>.segment_lists[0].segment_urls\<close> of a representation, and the media read off it.\<close>

definition rep_segments :: "representation \<Rightarrow> exn + string list" where
  "rep_segments r =
     bindE (subscript (segment_lists r) 0) (\<lambda>sl.
       (case segment_urls sl of
          None \<Rightarrow> Inl (TypeError ''NoneType object is not iterable'')
        | Some us \<Rightarrow> Inr (media_of us)))"

definition set_segments :: "resolution \<Rightarrow> adaptation_set \<Rightarrow> exn + string list" where
  "set_segments res a =
     (case representations a of
        None \<Rightarrow> Inl (TypeError ''NoneType object is not subscriptable'')
      | Some reps \<Rightarrow>
          bindE (representation_index res reps) (\<lambda>i.
          bindE (subscript (Some reps) i) rep_segments))"

text \<open>A dictionary keyed by the mime type: a later entry replaces an earlier one in place.\<close>

definition dict_set :: "('k \<times> 'v) list \<Rightarrow> 'k \<Rightarrow> 'v \<Rightarrow> ('k \<times> 'v) list" where
  "dict_set d k v =
     (if k \<in> fst ` set d then map (\<lambda>(k', v'). if k' = k then (k', v) else (k', v')) d
      else d @ [(k, v)])"

definition dict_get :: "('k \<times> 'v list) list \<Rightarrow> 'k \<Rightarrow> 'v list" where
  "dict_get d k = (case map_of d k of None \<Rightarrow> [] | Some v \<Rightarrow> v)"

fun collect_sets ::
  "resolution \<Rightarrow> adaptation_set list \<Rightarrow> (string option \<times> string list) list
     \<Rightarrow> exn + (string option \<times> string list) list" where
  "collect_sets res [] d = Inr d"
| "collect_sets res (a # rest) d =
     (case set_segments res a of
        Inl e \<Rightarrow> Inl e
      | Inr segs \<Rightarrow> collect_sets res rest (dict_set d (mime_type a) segs))"

definition get_segments_urls ::
  "resolution \<Rightarrow> state \<Rightarrow> exn + (string option \<times> string list) list" where
  "get_segments_urls res s =
     (case (case mpd_master s of
              None \<Rightarrow> Inl (AttributeError ''NoneType object has no attribute periods'')
            | Some m \<Rightarrow>
                bindE (subscript (periods m) 0) (\<lambda>p.
                  (case adaptation_sets p of
                     None \<Rightarrow> Inl (TypeError ''NoneType object is not iterable'')
                   | Some sets \<Rightarrow> collect_sets res sets []))) of
        Inl (ValueError m) \<Rightarrow> Inl (InvalidResolution ''Invalid resolution specified'')
      | Inl e \<Rightarrow> Inl e
      | Inr d \<Rightarrow> Inr d)"

text \<open>
  \<^verbatim>\<open>get_resolutions\<close>. \<^verbatim>\<open>sorted\<close> compares the heights: with two representations or
  more, a height that is \<^verbatim>\<open>None\<close> is a TypeError. With one, its height is truthy.
\<close>

definition height_or0 :: "representation \<Rightarrow> int" where
  "height_or0 r = (case r_height r of None \<Rightarrow> 0 | Some h \<Rightarrow> h)"

definition sorted_resolutions :: "representation list \<Rightarrow> exn + resolution list" where
  "sorted_resolutions reps =
     (if 2 \<le> length reps \<and> (\<exists>r \<in> set reps. r_height r = None)
      then Inl (TypeError ''not supported between instances of NoneType and int'')
      else Inr (map (\<lambda>r. (r_width r, height_or0 r)) (sort_key height_or0 reps)))"

fun first_resolutions :: "adaptation_set list \<Rightarrow> exn + resolution list option" where
  "first_resolutions [] = Inr None"
| "first_resolutions (a # rest) =
     (case subscript (representations a) 0 of
        Inl e \<Rightarrow> Inl e
      | Inr r0 \<Rightarrow>
          if truthy_int (r_height r0) then
            (case representations a of
               None \<Rightarrow> Inl (TypeError ''NoneType object is not iterable'')
             | Some reps \<Rightarrow> bindE (sorted_resolutions reps) (\<lambda>rs. Inr (Some rs)))
          else first_resolutions rest)"

definition get_resolutions :: "state \<Rightarrow> exn + resolution list option" where
  "get_resolutions s =
     (case mpd_master s of
        None \<Rightarrow> Inr None
      | Some m \<Rightarrow>
          if playlist_type s = ''dash'' then
            bindE (subscript (periods m) 0) (\<lambda>p.
              (case adaptation_sets p of
                 None \<Rightarrow> Inl (TypeError ''NoneType object is not iterable'')
               | Some sets \<Rightarrow> first_resolutions sets))
          else Inr None)"

section \<open>The output verifier\<close>

definition ffprobe_args :: "string \<Rightarrow> string \<Rightarrow> string list" where
  "ffprobe_args probe filepath =
     [probe, ''-v'', ''error'', ''-show_streams'', ''-show_format'', ''-of'', ''json'', filepath]"

definition validation_failed :: exn where
  "validation_failed = RuntimeError ''Output validation failed (no video/audio or zero duration)''"

definition accepts :: "probe_meta \<Rightarrow> bool \<Rightarrow> bool" where
  "accepts meta require_audio =
     (\<not> (Some ''video'' \<notin> set (streams meta) \<or> float_le (duration meta) (1 / 2)
         \<or> (require_audio \<and> Some ''audio'' \<notin> set (streams meta))))"

definition ffprobe_missing_msg :: string where
  "ffprobe_missing_msg = ''[*] Warning: ffprobe not found. Skipping validation.''"

definition ffprobe_failed_msg :: "exn \<Rightarrow> string" where
  "ffprobe_failed_msg e = ''[*] Warning: ffprobe failed: '' @ str_exn e @ ''. Skipping validation.''"

definition verify_output_or_raise :: "env \<Rightarrow> string \<Rightarrow> bool \<Rightarrow> state \<Rightarrow> (exn + unit) \<times> state" where
  "verify_output_or_raise E filepath require_audio s =
     (case which_ffprobe E (length (calls s)) of
        None \<Rightarrow> (Inr (), print ffprobe_missing_msg s)
      | Some probe \<Rightarrow>
          (let s1 = log_call (Ffprobe (ffprobe_args probe filepath)) s in
           case ffprobe_io E (length (calls s)) (ffprobe_args probe filepath) (fs s filepath) of
             Inl e \<Rightarrow>
               (Inr (), print (ffprobe_failed_msg e) s1)
           | Inr stdout \<Rightarrow>
               (case json_loads E (if stdout = [] then ''{}'' else stdout) of
                  Inl e \<Rightarrow> (Inl e, s1)
                | Inr meta \<Rightarrow>
                    if accepts meta require_audio then (Inr (), s1)
                    else (Inl validation_failed, unlink filepath s1))))"

section \<open>The orchestrator\<close>

text \<open>
  \<^verbatim>\<open>download()\<close> in the pieces its \<^verbatim>\<open>try\<close> blocks cut it into. \<open>out\<close> gets one
  entry for each \<^verbatim>\<open>print\<close>, the text without the line end. The parent directory of the
  output (line 439) is not modelled: \<open>fs\<close> holds regular files only.
\<close>

definition hls_failed_msg :: "exn \<Rightarrow> string" where
  "hls_failed_msg e =
     ''[*] HLS failed: '' @ str_exn e @ [CHR 0x0A] @ ''[*] Falling back to DASH...''"

definition dash_failed_msg :: "exn \<Rightarrow> string" where
  "dash_failed_msg e =
     ''[*] DASH failed: '' @ str_exn e @ [CHR 0x0A] @ ''[*] Trying HLS...''"

text \<open>Lines 445 and 446, and again 513 and 514: the HLS pipeline up to its temp file.\<close>

definition hls_produce ::
  "env \<Rightarrow> string \<Rightarrow> resolution option \<Rightarrow> state \<Rightarrow> (exn + unit) \<times> state" where
  "hls_produce E tmp_path resolution s =
     bind (select_hls_variant_urls E resolution s) (\<lambda>urls s1.
       download_hls_via_ffmpeg E (fst urls) (snd urls) tmp_path s1)"

text \<open>Lines 445 to 450, the body of the first \<^verbatim>\<open>try\<close>.\<close>

definition hls_try ::
  "env \<Rightarrow> string \<Rightarrow> string \<Rightarrow> resolution option \<Rightarrow> state \<Rightarrow> (exn + unit) \<times> state" where
  "hls_try E tmp_path filepath resolution s =
     bind (hls_produce E tmp_path resolution s) (\<lambda>u s2.
     bind (verify_output_or_raise E tmp_path True (print ''[*] Saved via HLS'' s2)) (\<lambda>u s3.
       rename tmp_path filepath s3))"

text \<open>Lines 510 to 518, the handler of the second \<^verbatim>\<open>try\<close>: nothing catches what it raises.\<close>

definition hls_fallback ::
  "env \<Rightarrow> string \<Rightarrow> string \<Rightarrow> resolution option \<Rightarrow> exn \<Rightarrow> state \<Rightarrow> (exn + unit) \<times> state" where
  "hls_fallback E tmp_path filepath resolution e s =
     bind (hls_produce E tmp_path resolution
             ((print (dash_failed_msg e) s)
                \<lparr>playlist_url := hls_master_playlist_url E, playlist_type := ''hls''\<rparr>))
       (\<lambda>u s2.
     bind (verify_output_or_raise E tmp_path True s2) (\<lambda>u s3.
     bind (rename tmp_path filepath s3) (\<lambda>u s4.
       (Inr (), print ''[*] Saved via HLS (fallback)'' s4))))"

text \<open>Lines 458 to 462: the resolution the DASH attempt works with.\<close>

definition dash_resolution :: "resolution option \<Rightarrow> state \<Rightarrow> exn + resolution" where
  "dash_resolution resolution s =
     (case resolution of
        Some r \<Rightarrow> Inr r
      | None \<Rightarrow>
          bindE (get_resolutions s) (\<lambda>res_list.
            (case res_list of
               None \<Rightarrow> Inl (InvalidResolution ''Resolutions are not available for DASH manifest'')
             | Some [] \<Rightarrow> Inl (InvalidResolution ''Resolutions are not available for DASH manifest'')
             | Some (r # rs) \<Rightarrow> Inr (last (r # rs)))))"

text \<open>Lines 478 to 491.\<close>

definition dash_decrypt :: "env \<Rightarrow> string option \<Rightarrow> string list \<Rightarrow> state \<Rightarrow> (exn + unit) \<times> state" where
  "dash_decrypt E key audio_segments s =
     (if truthy key then
        bind (decrypt_video E (temp_file E (video_id E @ ''_video.mp4.enc''))
                (temp_file E (video_id E @ ''_video.mp4''))
                (case key of None \<Rightarrow> [] | Some k \<Rightarrow> k) (print ''[*] Decrypting...'' s))
          (\<lambda>u s1.
             bind (if audio_segments \<noteq> []
                   then decrypt_video E (temp_file E (video_id E @ ''_audio.mp4.enc''))
                          (temp_file E (video_id E @ ''_audio.mp4''))
                          (case key of None \<Rightarrow> [] | Some k \<Rightarrow> k) s1
                   else (Inr (), s1))
               (\<lambda>u s2. (Inr (), print ''Done'' s2)))
      else (Inr (), s))"

text \<open>Lines 493 to 502.\<close>

definition dash_assemble :: "env \<Rightarrow> string \<Rightarrow> string list \<Rightarrow> state \<Rightarrow> (exn + unit) \<times> state" where
  "dash_assemble E tmp_path audio_segments s =
     (if audio_segments \<noteq> [] then
        bind (merge_tracks E (temp_file E (video_id E @ ''_video.mp4''))
                (temp_file E (video_id E @ ''_audio.mp4'')) tmp_path
                (print ''[*] Merging tracks...'' s))
          (\<lambda>u s1. (Inr (), print ''Done'' s1))
      else rename (temp_file E (video_id E @ ''_video.mp4'')) tmp_path s)"

text \<open>Lines 466 to 476.\<close>

definition dash_fetch ::
  "env \<Rightarrow> string option \<Rightarrow> string list \<Rightarrow> string list \<Rightarrow> state \<Rightarrow> (exn + unit) \<times> state" where
  "dash_fetch E key video_segments audio_segments s =
     bind (fetch_segments E video_segments
             (temp_file E (video_id E @ ''_video.mp4'' @ (if truthy key then ''.enc'' else [])))
             s)
       (\<lambda>u s1.
          if audio_segments \<noteq> []
          then fetch_segments E audio_segments
                 (temp_file E (video_id E @ ''_audio.mp4'' @ (if truthy key then ''.enc'' else [])))
                 s1
          else (Inr (), s1))"

text \<open>Lines 464 to 502: the DASH pipeline up to its temp file.\<close>

definition dash_produce :: "env \<Rightarrow> string \<Rightarrow> resolution \<Rightarrow> state \<Rightarrow> (exn + unit) \<times> state" where
  "dash_produce E tmp_path res s =
     bind (get_license_key E s) (\<lambda>key s1.
       (case get_segments_urls res s1 of
          Inl e \<Rightarrow> (Inl e, s1)
        | Inr segments \<Rightarrow>
            bind (dash_fetch E key (dict_get segments (Some ''video/mp4''))
                    (dict_get segments (Some ''audio/mp4'')) s1) (\<lambda>u s3.
            bind (dash_decrypt E key (dict_get segments (Some ''audio/mp4'')) s3) (\<lambda>u s4.
              dash_assemble E tmp_path (dict_get segments (Some ''audio/mp4'')) s4))))"

text \<open>Lines 464 to 507, the second \<^verbatim>\<open>try\<close> once the resolution is known.\<close>

definition dash_rest ::
  "env \<Rightarrow> string \<Rightarrow> string \<Rightarrow> resolution \<Rightarrow> state \<Rightarrow> (exn + unit) \<times> state" where
  "dash_rest E tmp_path filepath res s =
     bind (dash_produce E tmp_path res s) (\<lambda>u s5.
     bind (verify_output_or_raise E tmp_path True s5) (\<lambda>u s6.
     bind (rename tmp_path filepath s6) (\<lambda>u s7.
       (Inr (), print ''[*] Saved via DASH'' s7))))"

text \<open>The same without the last message: what of the \<^verbatim>\<open>try\<close> can still raise.\<close>

definition dash_checked ::
  "env \<Rightarrow> string \<Rightarrow> string \<Rightarrow> resolution \<Rightarrow> state \<Rightarrow> (exn + unit) \<times> state" where
  "dash_checked E tmp_path filepath res s =
     bind (dash_produce E tmp_path res s) (\<lambda>u s5.
     bind (verify_output_or_raise E tmp_path True s5) (\<lambda>u s6. rename tmp_path filepath s6))"

text \<open>
  Lines 457 to 518. The handler sees the \<^verbatim>\<open>resolution\<close> that the \<^verbatim>\<open>try\<close> had
  assigned when the exception was raised.
\<close>

definition dash_attempt ::
  "env \<Rightarrow> string \<Rightarrow> string \<Rightarrow> resolution option \<Rightarrow> state \<Rightarrow> (exn + unit) \<times> state" where
  "dash_attempt E tmp_path filepath resolution s =
     (case dash_resolution resolution s of
        Inl e \<Rightarrow> hls_fallback E tmp_path filepath resolution e s
      | Inr res \<Rightarrow>
          (case dash_rest E tmp_path filepath res s of
             (Inr u, s1) \<Rightarrow> (Inr (), s1)
           | (Inl e, s1) \<Rightarrow> hls_fallback E tmp_path filepath (Some res) e s1))"

definition fetch_mpd_master :: "env \<Rightarrow> state \<Rightarrow> (exn + mpd) \<times> state" where
  "fetch_mpd_master E s =
     (fetch_mpd_io E (length (calls s)) (playlist_url s), log_call (GetMpd (playlist_url s)) s)"

text \<open>Lines 452 to 455, the handler of the first \<^verbatim>\<open>try\<close>, and what follows it.\<close>

definition dash_fallback ::
  "env \<Rightarrow> string \<Rightarrow> string \<Rightarrow> resolution option \<Rightarrow> exn \<Rightarrow> state \<Rightarrow> (exn + unit) \<times> state" where
  "dash_fallback E tmp_path filepath resolution e s =
     (let s0 = (print (hls_failed_msg e) s)
                 \<lparr>playlist_url := mpd_master_playlist_url E, playlist_type := ''dash''\<rparr>
      in bind (fetch_mpd_master E s0) (\<lambda>m s1.
           dash_attempt E tmp_path filepath resolution (s1\<lparr>mpd_master := Some m\<rparr>)))"

definition download :: "env \<Rightarrow> string \<Rightarrow> resolution option \<Rightarrow> state \<Rightarrow> (exn + unit) \<times> state" where
  "download E filepath0 resolution s =
     (let filepath = with_suffix_mp4 E filepath0;
          tmp_path = filepath @ ''.part''
      in if playlist_type s = ''hls'' then
           (case hls_try E tmp_path filepath resolution s of
              (Inr u, s1) \<Rightarrow> (Inr (), s1)
            | (Inl e, s1) \<Rightarrow> dash_fallback E tmp_path filepath resolution e s1)
         else dash_attempt E tmp_path filepath resolution s)"

section \<open>Notions the properties are stated with\<close>

text \<open>The height of a variant, when its resolution is known.\<close>

definition v_height :: "variant \<Rightarrow> int option" where
  "v_height v = (case v_res v of None \<Rightarrow> None | Some (w, h) \<Rightarrow> Some h)"

text \<open>
  The specification's words for a segment list, "duplicates collapse to first occurrence,
  order otherwise preserved", as a function of their own, to compare line 283 with.
\<close>

fun spec_collapse_duplicates :: "'a list \<Rightarrow> 'a list" where
  "spec_collapse_duplicates [] = []"
| "spec_collapse_duplicates (x # xs) = x # filter (\<lambda>y. y \<noteq> x) (spec_collapse_duplicates xs)"




text \<open>The request that one attempt at a segment makes.\<close>

definition segment_call :: "env \<Rightarrow> string \<Rightarrow> call" where
  "segment_call E segment_url = GetSegment (segment_request_url E segment_url)"

definition chunked_at :: "env \<Rightarrow> nat \<Rightarrow> string \<Rightarrow> bool" where
  "chunked_at E n segment_url =
     (\<exists>m. segment_io E n (segment_request_url E segment_url) = Inl (ChunkedEncodingError m))"

section \<open>Observing a call of download\<close>

text \<open>
  What a run adds to the calls and to the output, and the entries that mark the protocol
  transitions: the message of the first handler (HLS to DASH), the message of the second
  (DASH to HLS), the request for the master playlist that every HLS attempt starts with,
  and the message that ends a successful DASH attempt.
\<close>

definition new_calls :: "state \<Rightarrow> state \<Rightarrow> call list" where
  "new_calls s s' = drop (length (calls s)) (calls s')"

definition new_out :: "state \<Rightarrow> state \<Rightarrow> string list" where
  "new_out s s' = drop (length (out s)) (out s')"

definition is_hls_failed :: "string \<Rightarrow> bool" where
  "is_hls_failed m = prefix ''[*] HLS failed: '' m"

definition is_dash_failed :: "string \<Rightarrow> bool" where
  "is_dash_failed m = prefix ''[*] DASH failed: '' m"

definition is_saved_dash :: "string \<Rightarrow> bool" where
  "is_saved_dash m = (m = ''[*] Saved via DASH'')"

fun is_master_call :: "call \<Rightarrow> bool" where
  "is_master_call (GetHlsMaster u) = True"
| "is_master_call c = False"

fun is_mpd_call :: "call \<Rightarrow> bool" where
  "is_mpd_call (GetMpd u) = True"
| "is_mpd_call c = False"

fun is_license_call :: "call \<Rightarrow> bool" where
  "is_license_call (PostLicense u k) = True"
| "is_license_call c = False"

text \<open>
  A run from \<open>s\<close> to \<open>s'\<close> that only adds calls of \<open>C\<close> and messages of \<open>M\<close>.
\<close>

definition steps :: "call set \<Rightarrow> string set \<Rightarrow> state \<Rightarrow> state \<Rightarrow> bool" where
  "steps C M s s' =
     (\<exists>cs os. calls s' = calls s @ cs \<and> out s' = out s @ os \<and> set cs \<subseteq> C \<and> set os \<subseteq> M)"

definition noise :: "string set" where
  "noise = {m. \<not> is_hls_failed m \<and> \<not> is_dash_failed m \<and> \<not> is_saved_dash m}"

definition tool_calls :: "call set" where
  "tool_calls = range Popen \<union> range Ffprobe"

definition dash_calls :: "call set" where
  "dash_calls = {c. \<not> is_master_call c \<and> \<not> is_mpd_call c}"

text \<open>
  A run from \<open>s\<close> to \<open>s'\<close> that starts \<open>a\<close> HLS attempts, takes the edge from HLS to
  DASH \<open>b\<close> times and the edge from DASH to HLS \<open>c\<close> times, and ends \<open>d\<close> DASH attempts
  with success.
\<close>

definition run :: "nat \<Rightarrow> nat \<Rightarrow> nat \<Rightarrow> nat \<Rightarrow> state \<Rightarrow> state \<Rightarrow> bool" where
  "run a b c d s s' =
     (\<exists>cs os. calls s' = calls s @ cs \<and> out s' = out s @ os
        \<and> length (filter is_master_call cs) = a
        \<and> length (filter is_hls_failed os) = b
        \<and> length (filter is_dash_failed os) = c
        \<and> length (filter is_saved_dash os) = d)"

text \<open>A run that leaves every file outside \<open>F\<close> as it was.\<close>

definition keeps :: "string set \<Rightarrow> state \<Rightarrow> state \<Rightarrow> bool" where
  "keeps F s s' = (\<forall>p. p \<notin> F \<longrightarrow> fs s' p = fs s p)"


text \<open>
  The state in which the second \<^verbatim>\<open>try\<close> of \<^verbatim>\<open>download()\<close> (line 457) is entered, if it is:
  the state of the call when the primary protocol is DASH, and the state that the handler
  of the first \<^verbatim>\<open>try\<close> (lines 452 to 455) leaves when the HLS attempt raised and the
  manifest was fetched.
\<close>

definition dash_start :: "env \<Rightarrow> string \<Rightarrow> resolution option \<Rightarrow> state \<Rightarrow> state option" where
  "dash_start E filepath0 resolution s =
     (let filepath = with_suffix_mp4 E filepath0;
          tmp_path = filepath @ ''.part''
      in if playlist_type s = ''hls'' then
           (case hls_try E tmp_path filepath resolution s of
              (Inr u, s1) \<Rightarrow> None
            | (Inl e, s1) \<Rightarrow>
                (case fetch_mpd_master E
                        ((print (hls_failed_msg e) s1)
                           \<lparr>playlist_url := mpd_master_playlist_url E, playlist_type := ''dash''\<rparr>) of
                   (Inl e', s2) \<Rightarrow> None
                 | (Inr m, s2) \<Rightarrow> Some (s2\<lparr>mpd_master := Some m\<rparr>)))
         else Some s)"

text \<open>
  The resolution, the exception and the state with which the handler of the second
  \<^verbatim>\<open>try\<close> (line 509) is entered, if it is: the DASH attempt was started and raised.
\<close>

definition handler_start ::
  "env \<Rightarrow> string \<Rightarrow> resolution option \<Rightarrow> state \<Rightarrow> (resolution option \<times> exn \<times> state) option" where
  "handler_start E filepath0 resolution s =
     (let filepath = with_suffix_mp4 E filepath0;
          tmp_path = filepath @ ''.part''
      in case dash_start E filepath0 resolution s of
           None \<Rightarrow> None
         | Some sd \<Rightarrow>
             (case dash_resolution resolution sd of
                Inl e \<Rightarrow> Some (resolution, e, sd)
              | Inr res \<Rightarrow>
                  (case dash_rest E tmp_path filepath res sd of
                     (Inr u, s1) \<Rightarrow> None
                   | (Inl e, s1) \<Rightarrow> Some (Some res, e, s1))))"


section \<open>Example inputs\<close>

text \<open>
  A master playlist with three variants, declared out of order, and a manifest with one
  video representation of one segment. In the example world every request succeeds, a
  segment's content is its URL, a subprocess writes \<open>''good''\<close> and exits with 0, ffprobe
  prints the file it is given, and \<open>example_json\<close> reads three kinds of file.
\<close>

definition example_m3u8 :: m3u8 where
  "example_m3u8 =
     \<lparr>playlists =
        [\<lparr>pl_uri = ''v1080'', pl_resolution = Some (1920, 1080), pl_bandwidth = Some 5000,
          pl_audio = None\<rparr>,
         \<lparr>pl_uri = ''v360'', pl_resolution = Some (640, 360), pl_bandwidth = Some 800,
          pl_audio = None\<rparr>,
         \<lparr>pl_uri = ''v720'', pl_resolution = Some (1280, 720), pl_bandwidth = Some 2500,
          pl_audio = None\<rparr>],
      media = []\<rparr>"

definition example_video_set :: adaptation_set where
  "example_video_set =
     \<lparr>mime_type = Some ''video/mp4'',
      representations =
        Some [\<lparr>r_width = Some 1280, r_height = Some 720,
               segment_lists = Some [\<lparr>segment_urls = Some [\<lparr>su_media = Some ''good''\<rparr>]\<rparr>]\<rparr>],
      content_protections = None\<rparr>"

definition example_audio_set :: adaptation_set where
  "example_audio_set =
     \<lparr>mime_type = Some ''audio/mp4'',
      representations =
        Some [\<lparr>r_width = None, r_height = None,
               segment_lists = Some [\<lparr>segment_urls = Some [\<lparr>su_media = Some ''a1''\<rparr>]\<rparr>]\<rparr>],
      content_protections = None\<rparr>"

definition example_mpd :: mpd where
  "example_mpd = \<lparr>periods = Some [\<lparr>adaptation_sets = Some [example_video_set]\<rparr>]\<rparr>"


definition example_json :: "string \<Rightarrow> exn + probe_meta" where
  "example_json txt =
     (if txt = ''good'' then Inr \<lparr>streams = [Some ''video'', Some ''audio''], duration = Finite 10\<rparr>
      else if txt = ''short''
        then Inr \<lparr>streams = [Some ''video'', Some ''audio''], duration = Finite (3 / 10)\<rparr>
      else if txt = ''mute'' then Inr \<lparr>streams = [Some ''video''], duration = Finite 10\<rparr>
      else if txt = ''nan'' then Inr \<lparr>streams = [Some ''video'', Some ''audio''], duration = NaN\<rparr>
      else Inr \<lparr>streams = [], duration = Finite 0\<rparr>)"

definition example_proc :: "string \<Rightarrow> proc" where
  "example_proc content = \<lparr>p_stdout = [], p_stderr = [], p_returncode = 0, p_output = Some content\<rparr>"

definition example_env :: env where
  "example_env =
     \<lparr>video_id = ''vid'', temp_path = ''t'', base_url = ''b/'', cdn_referer = ''r'',
      ffmpeg_path = ''ffmpeg'', mp4decrypt_path = ''mp4decrypt'', preferred_audio_lang = None,
      hls_master_playlist_url = ''m.m3u8'', mpd_master_playlist_url = ''m.mpd'',
      clearkey_license_url = ''lic'',
      urljoin = (\<lambda>b u. u), lower = (\<lambda>x. x), with_suffix_mp4 = (\<lambda>p. p),
      str_int = (\<lambda>n. if n = 1 then ''1'' else ''?''),
      b64_kid = Inr, json_loads = example_json, parse_out_time = (\<lambda>l. Inr 0),
      load_hls_master_io = (\<lambda>n u. Inr example_m3u8),
      fetch_mpd_io = (\<lambda>n u. Inr example_mpd),
      license_io = (\<lambda>n u k. Inr ''00ff''),
      segment_io = (\<lambda>n u. Inr u),
      popen_io = (\<lambda>n args. Inr (example_proc ''good'')),
      which_ffprobe = (\<lambda>n. Some ''ffprobe''),
      ffprobe_io = (\<lambda>n args content. Inr (case content of None \<Rightarrow> [] | Some c \<Rightarrow> c))\<rparr>"

definition example_state :: "string \<Rightarrow> state" where
  "example_state ptype =
     \<lparr>playlist_url = (if ptype = ''hls'' then ''m.m3u8'' else ''m.mpd''), playlist_type = ptype,
      mpd_master = (if ptype = ''hls'' then None else Some example_mpd),
      fs = (\<lambda>p. None), calls = [], out = []\<rparr>"

text \<open>A world whose subprocesses write a partial file, print a diagnostic and exit with 1.\<close>

definition failing_proc :: proc where
  "failing_proc =
     \<lparr>p_stdout = [], p_stderr = [''boom''], p_returncode = 1, p_output = Some ''partial''\<rparr>"

definition failing_tools_env :: env where
  "failing_tools_env = example_env\<lparr>popen_io := (\<lambda>n args. Inr failing_proc)\<rparr>"

text \<open>
  A world where the master playlist cannot be loaded at first and loads later, and where
  no segment can be fetched: the HLS attempt fails, then the DASH attempt fails.
\<close>

definition pingpong_env :: env where
  "pingpong_env =
     example_env
       \<lparr>load_hls_master_io :=
          (\<lambda>n u. if n = 0 then Inl (LibraryError ''HTTPError'' ''503'') else Inr example_m3u8),
        segment_io := (\<lambda>n u. Inl (LibraryError ''ConnectionError'' ''reset''))\<rparr>"

text \<open>The example world with an HLS muxer that writes a file of 0.3 seconds.\<close>

definition short_hls_env :: env where
  "short_hls_env = example_env\<lparr>popen_io := (\<lambda>n args. Inr (example_proc ''short''))\<rparr>"




text \<open>
  A manifest whose only segment is a file without an audio stream, the state of a call
  that has it loaded, and a world where it is the manifest fetched and the HLS muxer writes
  a file of 0.3 seconds.
\<close>

definition mute_mpd :: mpd where
  "mute_mpd =
     \<lparr>periods = Some [\<lparr>adaptation_sets =
        Some [\<lparr>mime_type = Some ''video/mp4'',
               representations =
                 Some [\<lparr>r_width = Some 1280, r_height = Some 720,
                        segment_lists = Some [\<lparr>segment_urls = Some [\<lparr>su_media = Some ''mute''\<rparr>]\<rparr>]\<rparr>],
               content_protections = None\<rparr>]\<rparr>]\<rparr>"


definition reject_env :: env where
  "reject_env = short_hls_env\<lparr>fetch_mpd_io := (\<lambda>n u. Inr mute_mpd)\<rparr>"

text \<open>A world where the master playlist never loads and no segment can be fetched.\<close>

definition blocked_env :: env where
  "blocked_env =
     example_env
       \<lparr>load_hls_master_io := (\<lambda>n u. Inl (LibraryError ''HTTPError'' ''503'')),
        segment_io := (\<lambda>n u. Inl (LibraryError ''ConnectionError'' ''reset''))\<rparr>"

text \<open>
  A world where the first request of all breaks off in the middle of the transfer, and so
  does every request for the segment \<open>b\<close>.
\<close>

definition flaky_env :: env where
  "flaky_env =
     example_env
       \<lparr>segment_io :=
          (\<lambda>n u. if n = 0 \<or> u = ''b'' then Inl (ChunkedEncodingError ''incomplete read'')
                  else Inr u)\<rparr>"

section \<open>Properties\<close>

subsection \<open>Sorted lists and their last element\<close>

lemma sorted_map_last_max:
  "sorted (map f xs) \<Longrightarrow> x \<in> set xs \<Longrightarrow> f x \<le> f (last xs)"
proof (induction xs)
  case Nil
  then show ?case by simp
next
  case (Cons a xs)
  then show ?case by (cases "xs = []") auto
qed

lemma height_leq_iff: "height_leq H v \<longleftrightarrow> (\<exists>h. v_height v = Some h \<and> h \<le> H)"
  by (auto simp: height_leq_def v_height_def split: option.splits)

lemma variant_key_le_height:
  "variant_key v \<le> variant_key c \<Longrightarrow> v_height v = Some h \<Longrightarrow> v_height c = Some hc \<Longrightarrow> h \<le> hc"
  by (auto simp: variant_key_def v_height_def less_eq_prod_def split: option.splits)

lemma hls_variants_of_sorted:
  "sorted (map variant_key (hls_variants_of uj lw pref url pl))"
  by (simp add: hls_variants_of_def)


lemma get_hls_variants_ok:
  "load_hls_master_io E (length (calls s)) (playlist_url s) = Inr pl \<Longrightarrow>
   get_hls_variants E s =
     (Inr (hls_variants_of (urljoin E) (lower E) (preferred_audio_lang E) (playlist_url s) pl),
      log_call (GetHlsMaster (playlist_url s)) s)"
  by (simp add: get_hls_variants_def load_hls_master_def bind_def log_call_def)

lemma select_hls_variant_urls_ok:
  "load_hls_master_io E (length (calls s)) (playlist_url s) = Inr pl \<Longrightarrow>
   select_hls_variant_urls E d s =
     (Inr (select_variant (playlist_url s)
             (hls_variants_of (urljoin E) (lower E) (preferred_audio_lang E) (playlist_url s) pl) d),
      log_call (GetHlsMaster (playlist_url s)) s)"
  by (simp add: select_hls_variant_urls_def get_hls_variants_ok bind_def log_call_def)

lemma select_variant_empty: "select_variant url [] d = (url, None)"
  by (simp add: select_variant_def)

lemma select_variant_none:
  "vs \<noteq> [] \<Longrightarrow> select_variant url vs None = (v_video_uri (last vs), v_audio_uri (last vs))"
  by (simp add: select_variant_def Let_def)

lemma select_variant_no_leq:
  "vs \<noteq> [] \<Longrightarrow> \<forall>v \<in> set vs. \<not> height_leq H v \<Longrightarrow>
   select_variant url vs (Some (w, H)) = (v_video_uri (last vs), v_audio_uri (last vs))"
  by (simp add: select_variant_def filter_empty_conv Let_def)

lemma select_variant_leq:
  assumes "sorted (map variant_key vs)" and "v0 \<in> set vs" and "height_leq H v0"
  shows "\<exists>c \<in> set vs. select_variant url vs (Some (w, H)) = (v_video_uri c, v_audio_uri c)
           \<and> height_leq H c
           \<and> (\<forall>v \<in> set vs. height_leq H v \<longrightarrow> variant_key v \<le> variant_key c)"
proof -
  let ?leq = "filter (height_leq H) vs"
  have ne: "?leq \<noteq> []" using assms(2,3) by (auto simp: filter_empty_conv)
  have srt: "sorted (map variant_key ?leq)" using assms(1) by (rule sorted_filter)
  have mem: "last ?leq \<in> set ?leq" using ne by (rule last_in_set)
  have sel: "select_variant url vs (Some (w, H)) = (v_video_uri (last ?leq), v_audio_uri (last ?leq))"
    using ne assms(2) by (auto simp: select_variant_def Let_def)
  have mx: "\<forall>v \<in> set vs. height_leq H v \<longrightarrow> variant_key v \<le> variant_key (last ?leq)"
    using sorted_map_last_max[OF srt] by simp
  show ?thesis using mem sel mx by auto
qed

lemma example_variants:
  "hls_variants_of (\<lambda>b u. u) (\<lambda>x. x) None ''m.m3u8'' example_m3u8 =
     [(Some (640, 360), 800, ''v360'', None), (Some (1280, 720), 2500, ''v720'', None),
      (Some (1920, 1080), 5000, ''v1080'', None)]"
  by (simp add: hls_variants_of_def example_m3u8_def variant_of_def audio_by_group_def
      pick_audio_uri_for_group_def variant_key_def v_res_def v_bw_def less_eq_prod_def
      less_prod_def)

subsection \<open>Listing the HLS variants\<close>



subsection \<open>Selecting an HLS variant\<close>

text \<open>
  Claim C5. When the master playlist loads, \<^verbatim>\<open>_select_hls_variant_urls\<close> returns the
  playlist URL itself and no audio when there is no variant. Otherwise, for a desired
  height \<open>H\<close>, it returns a variant whose height is at most \<open>H\<close> and is the greatest such
  height, when some variant has a height of at most \<open>H\<close>; when none has, or when no
  resolution is desired, it returns the last variant of the list, whose key is the greatest.
\<close>

theorem C5_select_variant:
  assumes "load_hls_master_io E (length (calls s)) (playlist_url s) = Inr pl"
  shows "\<exists>vs sel. fst (get_hls_variants E s) = Inr vs
           \<and> fst (select_hls_variant_urls E d s) = Inr sel
           \<and> (vs = [] \<longrightarrow> sel = (playlist_url s, None))
           \<and> (vs \<noteq> [] \<longrightarrow>
                (\<forall>w H. d = Some (w, H) \<longrightarrow> (\<exists>v \<in> set vs. \<exists>h. v_height v = Some h \<and> h \<le> H) \<longrightarrow>
                   (\<exists>c \<in> set vs. \<exists>hc. sel = (v_video_uri c, v_audio_uri c)
                       \<and> v_height c = Some hc \<and> hc \<le> H
                       \<and> (\<forall>v \<in> set vs. \<forall>h. v_height v = Some h \<and> h \<le> H \<longrightarrow> h \<le> hc)))
              \<and> ((d = None \<or> (\<exists>w H. d = Some (w, H)
                                  \<and> \<not> (\<exists>v \<in> set vs. \<exists>h. v_height v = Some h \<and> h \<le> H))) \<longrightarrow>
                   sel = (v_video_uri (last vs), v_audio_uri (last vs))
                   \<and> (\<forall>v \<in> set vs. variant_key v \<le> variant_key (last vs))))"
proof -
  let ?vs = "hls_variants_of (urljoin E) (lower E) (preferred_audio_lang E) (playlist_url s) pl"
  let ?sel = "select_variant (playlist_url s) ?vs d"
  have srt: "sorted (map variant_key ?vs)" by (rule hls_variants_of_sorted)
  have a: "fst (get_hls_variants E s) = Inr ?vs"
    using assms by (simp add: get_hls_variants_ok)
  have b: "fst (select_hls_variant_urls E d s) = Inr ?sel"
    using assms by (simp add: select_hls_variant_urls_ok)
  have c: "?vs = [] \<longrightarrow> ?sel = (playlist_url s, None)"
    by (simp add: select_variant_empty)
  have d1: "\<exists>c \<in> set ?vs. \<exists>hc. ?sel = (v_video_uri c, v_audio_uri c)
              \<and> v_height c = Some hc \<and> hc \<le> H
              \<and> (\<forall>v \<in> set ?vs. \<forall>h. v_height v = Some h \<and> h \<le> H \<longrightarrow> h \<le> hc)"
    if dd: "d = Some (w, H)" and ex: "\<exists>v \<in> set ?vs. \<exists>h. v_height v = Some h \<and> h \<le> H" for w H
  proof -
    from ex obtain v0 where v0: "v0 \<in> set ?vs" "height_leq H v0"
      by (auto simp: height_leq_iff)
    from select_variant_leq [OF srt v0, of "playlist_url s" w]
    obtain c where c: "c \<in> set ?vs"
        "select_variant (playlist_url s) ?vs (Some (w, H)) = (v_video_uri c, v_audio_uri c)"
        "height_leq H c"
        "\<forall>v \<in> set ?vs. height_leq H v \<longrightarrow> variant_key v \<le> variant_key c"
      by blast
    from c(3) obtain hc where hc: "v_height c = Some hc" "hc \<le> H"
      by (auto simp: height_leq_iff)
    have "\<forall>v \<in> set ?vs. \<forall>h. v_height v = Some h \<and> h \<le> H \<longrightarrow> h \<le> hc"
      using c(4) hc(1) by (auto simp: height_leq_iff dest: variant_key_le_height)
    then show ?thesis using c(1,2) hc dd by blast
  qed
  have d2: "?sel = (v_video_uri (last ?vs), v_audio_uri (last ?vs))
             \<and> (\<forall>v \<in> set ?vs. variant_key v \<le> variant_key (last ?vs))"
    if ne: "?vs \<noteq> []"
      and dd: "d = None \<or> (\<exists>w H. d = Some (w, H)
                 \<and> \<not> (\<exists>v \<in> set ?vs. \<exists>h. v_height v = Some h \<and> h \<le> H))"
  proof -
    have "?sel = (v_video_uri (last ?vs), v_audio_uri (last ?vs))"
      using dd ne by (auto simp: select_variant_none select_variant_no_leq height_leq_iff)
    moreover have "\<forall>v \<in> set ?vs. variant_key v \<le> variant_key (last ?vs)"
      using sorted_map_last_max [OF srt] by blast
    ultimately show ?thesis by blast
  qed
  show ?thesis using a b c d1 d2 by blast
qed

lemma example_load:
  "load_hls_master_io example_env (length (calls (example_state ''hls'')))
       (playlist_url (example_state ''hls'')) = Inr example_m3u8"
  by (simp add: example_env_def)

lemma example_get_variants:
  "fst (get_hls_variants example_env (example_state ''hls'')) =
     Inr [(Some (640, 360), 800, ''v360'', None), (Some (1280, 720), 2500, ''v720'', None),
          (Some (1920, 1080), 5000, ''v1080'', None)]"
proof -
  have "urljoin example_env = (\<lambda>b u. u)" "lower example_env = (\<lambda>x. x)"
       "preferred_audio_lang example_env = None"
    by (simp_all add: example_env_def)
  moreover have "playlist_url (example_state ''hls'') = ''m.m3u8''"
    by (simp add: example_state_def)
  ultimately show ?thesis
    by (simp add: get_hls_variants_ok [OF example_load] example_variants)
qed

theorem C5_select_variant_witness:
  "load_hls_master_io example_env (length (calls (example_state ''hls'')))
       (playlist_url (example_state ''hls'')) = Inr example_m3u8
   \<and> fst (select_hls_variant_urls example_env (Some (Some 1280, 800)) (example_state ''hls''))
       = Inr (''v720'', None)"
proof -
  let ?s = "example_state ''hls''"
  let ?vs = "[(Some (640, 360), 800, ''v360'', None), (Some (1280, 720), 2500, ''v720'', None),
      (Some (1920, 1080), 5000, ''v1080'', None)] :: variant list"
  note h = example_load
  from C5_select_variant [OF h, of "Some (Some 1280, 800)"]
  obtain vs sel where A: "fst (get_hls_variants example_env ?s) = Inr vs"
    and B: "fst (select_hls_variant_urls example_env (Some (Some 1280, 800)) ?s) = Inr sel"
    and C: "vs \<noteq> [] \<longrightarrow>
                (\<forall>w H. Some (Some 1280, 800) = Some (w, H) \<longrightarrow> (\<exists>v \<in> set vs. \<exists>h. v_height v = Some h \<and> h \<le> H) \<longrightarrow>
                   (\<exists>c \<in> set vs. \<exists>hc. sel = (v_video_uri c, v_audio_uri c)
                       \<and> v_height c = Some hc \<and> hc \<le> H
                       \<and> (\<forall>v \<in> set vs. \<forall>h. v_height v = Some h \<and> h \<le> H \<longrightarrow> h \<le> hc)))"
    by blast
  have vs: "vs = ?vs" using A example_get_variants by simp
  have q: "\<exists>v \<in> set ?vs. \<exists>h. v_height v = Some h \<and> h \<le> 800"
    by (rule bexI [of _ "(Some (640, 360), 800, ''v360'', None)"])
       (simp_all add: v_height_def v_res_def)
  from C vs q obtain c hc where c: "c \<in> set ?vs" "sel = (v_video_uri c, v_audio_uri c)"
      "v_height c = Some hc" "hc \<le> 800"
      "\<forall>v \<in> set ?vs. \<forall>h. v_height v = Some h \<and> h \<le> 800 \<longrightarrow> h \<le> hc"
    by blast
  have m: "v_height (Some (1280, 720), 2500, ''v720'', None) = Some 720"
    by (simp add: v_height_def v_res_def)
  from c(5) m have "720 \<le> hc" by simp
  with c(1,3,4) have "c = (Some (1280, 720), 2500, ''v720'', None)"
    by (auto simp: v_height_def v_res_def)
  with c(2) have "sel = (''v720'', None)"
    by (simp add: v_video_uri_def v_audio_uri_def)
  with B h show ?thesis by simp
qed

subsection \<open>The output verifier\<close>





subsection \<open>Resolving the DASH segment lists\<close>

lemma py_index_Inr:
  "py_index xs x = Inr i \<Longrightarrow> i < length xs \<and> xs ! i = x \<and> (\<forall>j < i. xs ! j \<noteq> x)"
proof (induction xs arbitrary: i)
  case Nil
  then show ?case by simp
next
  case (Cons y ys)
  show ?case
  proof (cases "y = x")
    case True
    with Cons.prems show ?thesis by simp
  next
    case False
    with Cons.prems obtain k where k: "py_index ys x = Inr k" "i = Suc k"
      by (auto split: sum.splits)
    from Cons.IH [OF k(1)] False k(2) show ?thesis
      by (auto simp: nth_Cons split: nat.splits)
  qed
qed

lemma py_index_Inl:
  "py_index xs x = Inl e \<longleftrightarrow> x \<notin> set xs \<and> e = ValueError ''x is not in list''"
  by (induction xs) (auto split: sum.splits)

lemma py_index_mem: "x \<in> set xs \<Longrightarrow> \<exists>i. py_index xs x = Inr i"
  by (cases "py_index xs x") (auto simp: py_index_Inl)

















subsection \<open>Fetching the segments\<close>

lemma py_index_first: "x \<notin> set pre \<Longrightarrow> py_index (pre @ x # ys) x = Inr (length pre)"
  by (induction pre) auto

lemma py_index_in_prefix:
  assumes "x \<in> set pre" and "py_index (pre @ ys) x = Inr i"
  shows "i < length pre"
proof (rule ccontr)
  assume "\<not> i < length pre"
  from assms(1) obtain j where j: "j < length pre" "pre ! j = x"
    by (auto simp: in_set_conv_nth)
  with \<open>\<not> i < length pre\<close> have "j < i" by simp
  with py_index_Inr [OF assms(2)] have "(pre @ ys) ! j \<noteq> x" by blast
  with j show False by (simp add: nth_append)
qed

lemma dedup_general:
  "map snd (filter (\<lambda>(i, seg). seg \<noteq> [] \<and> py_index (pre @ xs) seg = Inr i)
              (enumerate (length pre) xs))
   = filter (\<lambda>y. y \<noteq> [] \<and> y \<notin> set pre) (spec_collapse_duplicates xs)"
proof (induction xs arbitrary: pre)
  case Nil
  then show ?case by simp
next
  case (Cons x xs)
  let ?T = "map snd (filter (\<lambda>(i, seg). seg \<noteq> [] \<and> py_index (pre @ x # xs) seg = Inr i)
              (enumerate (Suc (length pre)) xs))"
  let ?H = "if x \<noteq> [] \<and> x \<notin> set pre then [x] else []"
  have hd: "py_index (pre @ x # xs) x = Inr (length pre) \<longleftrightarrow> x \<notin> set pre"
    using py_index_first [of x pre xs] py_index_in_prefix [of x pre "x # xs" "length pre"]
    by auto
  have tl: "?T = filter (\<lambda>y. y \<noteq> [] \<and> y \<notin> set (pre @ [x])) (spec_collapse_duplicates xs)"
    using Cons.IH [of "pre @ [x]"] by simp
  have fl: "filter (\<lambda>y. y \<noteq> [] \<and> y \<notin> set pre) (filter (\<lambda>y. y \<noteq> x) (spec_collapse_duplicates xs))
        = filter (\<lambda>y. y \<noteq> [] \<and> y \<notin> set (pre @ [x])) (spec_collapse_duplicates xs)"
    by (auto intro: filter_cong)
  have L: "map snd (filter (\<lambda>(i, seg). seg \<noteq> [] \<and> py_index (pre @ x # xs) seg = Inr i)
              (enumerate (length pre) (x # xs))) = ?H @ ?T"
    using hd by simp
  have R: "filter (\<lambda>y. y \<noteq> [] \<and> y \<notin> set pre) (spec_collapse_duplicates (x # xs))
        = ?H @ filter (\<lambda>y. y \<noteq> [] \<and> y \<notin> set pre)
                 (filter (\<lambda>y. y \<noteq> x) (spec_collapse_duplicates xs))"
    by simp
  from L R tl fl show ?case by (simp only:)
qed

lemma collapse_filter:
  "spec_collapse_duplicates (filter P xs) = filter P (spec_collapse_duplicates xs)"
proof (induction xs)
  case Nil
  then show ?case by simp
next
  case (Cons x xs)
  have "filter (\<lambda>y. y \<noteq> x) (filter P (spec_collapse_duplicates xs))
        = filter P (filter (\<lambda>y. y \<noteq> x) (spec_collapse_duplicates xs))"
    by (auto intro: filter_cong)
  moreover have "\<not> P x \<Longrightarrow> filter P (filter (\<lambda>y. y \<noteq> x) (spec_collapse_duplicates xs))
        = filter P (spec_collapse_duplicates xs)"
    by (auto intro: filter_cong)
  ultimately show ?case using Cons by simp
qed

lemma dedup_segments_eq:
  "dedup_segments xs = spec_collapse_duplicates (filter (\<lambda>u. u \<noteq> []) xs)"
  using dedup_general [of "[]" xs] by (simp add: dedup_segments_def collapse_filter)


lemma calls_log_call [simp]: "calls (log_call c s) = calls s @ [c]"
  by (simp add: log_call_def)

lemma calls_write_file [simp]: "calls (write_file p c s) = calls s"
  by (simp add: write_file_def)

lemma fetch_attempts_Suc_ok:
  "segment_io E (length (calls s)) (segment_request_url E u) = Inr c \<Longrightarrow>
   fetch_attempts (Suc n) E u f s =
     (Inr (), write_file f ((case fs s f of None \<Rightarrow> [] | Some old \<Rightarrow> old) @ c)
                (log_call (segment_call E u) s))"
  by (simp add: segment_call_def Let_def log_call_def)

lemma fetch_attempts_Suc_chunked:
  "chunked_at E (length (calls s)) u \<Longrightarrow>
   fetch_attempts (Suc n) E u f s = fetch_attempts n E u f (log_call (segment_call E u) s)"
  by (auto simp: chunked_at_def segment_call_def Let_def)

lemma fetch_attempts_Suc_other:
  "segment_io E (length (calls s)) (segment_request_url E u) = Inl e \<Longrightarrow>
   \<forall>m. e \<noteq> ChunkedEncodingError m \<Longrightarrow>
   fetch_attempts (Suc n) E u f s = (Inl e, log_call (segment_call E u) s)"
  by (cases e) (simp_all add: segment_call_def Let_def)

declare fetch_attempts.simps(2) [simp del]

lemma fetch_attempts_calls:
  "\<exists>k \<le> n. calls (snd (fetch_attempts n E u f s)) = calls s @ replicate k (segment_call E u)
          \<and> (\<forall>j. Suc j < k \<longrightarrow> chunked_at E (length (calls s) + j) u)"
proof (induction n arbitrary: s)
  case 0
  then show ?case by simp
next
  case (Suc n)
  let ?s1 = "log_call (segment_call E u) s"
  show ?case
  proof (cases "segment_io E (length (calls s)) (segment_request_url E u)")
    case (Inr c)
    have "calls (snd (fetch_attempts (Suc n) E u f s)) = calls s @ replicate 1 (segment_call E u)"
      by (simp add: fetch_attempts_Suc_ok [OF Inr])
    then show ?thesis by (intro exI [of _ 1]) simp
  next
    case (Inl e)
    show ?thesis
    proof (cases "\<exists>m. e = ChunkedEncodingError m")
      case False
      then have ne: "\<forall>m. e \<noteq> ChunkedEncodingError m" by blast
      have "calls (snd (fetch_attempts (Suc n) E u f s)) = calls s @ replicate 1 (segment_call E u)"
        by (simp add: fetch_attempts_Suc_other [OF Inl ne])
      then show ?thesis by (intro exI [of _ 1]) simp
    next
      case True
      with Inl have ch: "chunked_at E (length (calls s)) u" by (auto simp: chunked_at_def)
      from Suc.IH [of ?s1] obtain k where k: "k \<le> n"
        "calls (snd (fetch_attempts n E u f ?s1)) = calls ?s1 @ replicate k (segment_call E u)"
        "\<forall>j. Suc j < k \<longrightarrow> chunked_at E (length (calls ?s1) + j) u"
        by blast
      have c: "calls (snd (fetch_attempts (Suc n) E u f s))
                 = calls s @ replicate (Suc k) (segment_call E u)"
        using k(2) by (simp add: fetch_attempts_Suc_chunked [OF ch])
      have "\<forall>j. Suc j < Suc k \<longrightarrow> chunked_at E (length (calls s) + j) u"
      proof (intro allI impI)
        fix j assume "Suc j < Suc k"
        show "chunked_at E (length (calls s) + j) u"
        proof (cases j)
          case 0
          with ch show ?thesis by simp
        next
          case (Suc j')
          with \<open>Suc j < Suc k\<close> k(3) show ?thesis by simp
        qed
      qed
      with c k(1) show ?thesis by (intro exI [of _ "Suc k"]) simp
    qed
  qed
qed

lemma fetch_attempts_exhaust:
  "\<forall>j < n. chunked_at E (length (calls s) + j) u \<Longrightarrow>
   fst (fetch_attempts n E u f s) = Inl (SegmentDownloadError (''Failed to download segment '' @ u))
   \<and> calls (snd (fetch_attempts n E u f s)) = calls s @ replicate n (segment_call E u)"
proof (induction n arbitrary: s)
  case 0
  then show ?case by simp
next
  case (Suc n)
  let ?s1 = "log_call (segment_call E u) s"
  from Suc.prems have ch: "chunked_at E (length (calls s)) u" by force
  have "\<forall>j < n. chunked_at E (length (calls ?s1) + j) u"
    using Suc.prems by force
  from Suc.IH [OF this]
  have a: "fst (fetch_attempts n E u f ?s1)
             = Inl (SegmentDownloadError (''Failed to download segment '' @ u))"
    and b: "calls (snd (fetch_attempts n E u f ?s1)) = calls ?s1 @ replicate n (segment_call E u)"
    by blast+
  have eq: "fetch_attempts (Suc n) E u f s = fetch_attempts n E u f ?s1"
    by (rule fetch_attempts_Suc_chunked [OF ch])
  have "calls ?s1 @ replicate n (segment_call E u) = calls s @ replicate (Suc n) (segment_call E u)"
    by simp
  with a b show ?case unfolding eq by (simp only:)
qed


lemma fetch_segment_all_ok:
  assumes "\<forall>n v. \<exists>c. segment_io E n v = Inr c"
  shows "fst (fetch_segment E u f s) = Inr ()
         \<and> calls (snd (fetch_segment E u f s)) = calls s @ [segment_call E u]"
proof -
  from assms obtain c where "segment_io E (length (calls s)) (segment_request_url E u) = Inr c"
    by blast
  from fetch_attempts_Suc_ok [OF this, of 4 f] show ?thesis
    by (simp add: fetch_segment_def eval_nat_numeral)
qed

lemma fetch_each_all_ok:
  assumes "\<forall>n v. \<exists>c. segment_io E n v = Inr c"
  shows "fst (fetch_each E us f s) = Inr ()
         \<and> calls (snd (fetch_each E us f s)) = calls s @ map (segment_call E) us"
proof (induction us arbitrary: s)
  case Nil
  then show ?case by simp
next
  case (Cons u us)
  obtain s1 where s1: "fetch_segment E u f s = (Inr (), s1)"
    using fetch_segment_all_ok [OF assms, of u f s] by (cases "fetch_segment E u f s") auto
  with fetch_segment_all_ok [OF assms, of u f s]
  have c1: "calls s1 = calls s @ [segment_call E u]" by simp
  have "fetch_each E (u # us) f s = fetch_each E us f s1"
    using s1 by (simp add: bind_def)
  with Cons.IH [of s1] c1 show ?case by simp
qed

lemma fetch_each_first_fails:
  "fst (fetch_segment E u f s) = Inl e \<Longrightarrow> fetch_each E (u # rest) f s = fetch_segment E u f s"
  by (cases "fetch_segment E u f s") (auto simp: bind_def)

lemma dedup_example:
  assumes "a \<noteq> []" "b \<noteq> []" "c \<noteq> []" "a \<noteq> b" "a \<noteq> c" "b \<noteq> c"
  shows "dedup_segments [a, b, a, c, c] = [a, b, c]"
  using assms by (simp add: dedup_segments_eq)

subsection \<open>The exit code of the subprocesses\<close>

lemma failing_popen:
  "popen_io failing_tools_env n args = Inr failing_proc"
  by (simp add: failing_tools_env_def)

text \<open>
  Claim C3 at a subprocess that writes a partial file and exits with 1. The HLS muxer
  raises an error that carries the last lines of the diagnostic output and deletes its
  file. \<^verbatim>\<open>_merge_tracks\<close> and \<^verbatim>\<open>_decrypt_video\<close> never read the exit code: they
  return normally and leave the partial file in place.
\<close>

theorem C3_exit_code_ignored:
  "fst (merge_tracks failing_tools_env ''v.mp4'' ''a.mp4'' ''o.mp4.part'' (example_state ''dash''))
     = Inr ()
   \<and> fs (snd (merge_tracks failing_tools_env ''v.mp4'' ''a.mp4'' ''o.mp4.part''
                 (example_state ''dash''))) ''o.mp4.part'' = Some ''partial''
   \<and> fst (decrypt_video failing_tools_env ''v.enc'' ''v.mp4'' ''00ff'' (example_state ''dash''))
     = Inr ()
   \<and> fs (snd (decrypt_video failing_tools_env ''v.enc'' ''v.mp4'' ''00ff''
                 (example_state ''dash''))) ''v.mp4'' = Some ''partial''
   \<and> fst (download_hls_via_ffmpeg failing_tools_env ''v.m3u8'' None ''o.mp4.part''
            (example_state ''hls''))
     = Inl (RuntimeError (''ffmpeg failed with code 1. Trace:'' @ [CHR 0x0A] @ ''boom''))
   \<and> fs (snd (download_hls_via_ffmpeg failing_tools_env ''v.m3u8'' None ''o.mp4.part''
                 (example_state ''hls''))) ''o.mp4.part'' = None"
  by (simp add: merge_tracks_def decrypt_video_def download_hls_via_ffmpeg_def run_popen_def
        failing_popen failing_proc_def bind_def write_file_def log_call_def unlink_def
        ffmpeg_failed_def Let_def failing_tools_env_def example_env_def)

subsection \<open>What each operation adds to the calls and to the output\<close>

lemma calls_print [simp]: "calls (print m s) = calls s"
  by (simp add: print_def)

lemma out_print [simp]: "out (print m s) = out s @ [m]"
  by (simp add: print_def)

lemma out_log_call [simp]: "out (log_call c s) = out s"
  by (simp add: log_call_def)

lemma out_write_file [simp]: "out (write_file p c s) = out s"
  by (simp add: write_file_def)

lemma calls_unlink [simp]: "calls (unlink p s) = calls s"
  by (simp add: unlink_def)

lemma out_unlink [simp]: "out (unlink p s) = out s"
  by (simp add: unlink_def)

lemma steps_refl [simp]: "steps C M s s"
  by (simp add: steps_def)

lemma steps_trans:
  "steps C M s s1 \<Longrightarrow> steps C M s1 s2 \<Longrightarrow> steps C M s s2"
  unfolding steps_def by (elim exE conjE) (rule exI [of _ "_ @ _"], rule exI [of _ "_ @ _"], simp)

lemma steps_mono:
  "steps C M s s' \<Longrightarrow> C \<subseteq> C' \<Longrightarrow> M \<subseteq> M' \<Longrightarrow> steps C' M' s s'"
  unfolding steps_def by blast

lemma steps_print: "m \<in> M \<Longrightarrow> steps C M s (print m s)"
  by (simp add: steps_def)

lemma steps_log_call: "c \<in> C \<Longrightarrow> steps C M s (log_call c s)"
  by (simp add: steps_def)

lemma steps_write_file [simp]: "steps C M s (write_file p c s)"
  by (simp add: steps_def)

lemma steps_unlink [simp]: "steps C M s (unlink p s)"
  by (simp add: steps_def)

lemma steps_bind:
  assumes "steps C M s (snd r)"
    and "\<And>x s1. r = (Inr x, s1) \<Longrightarrow> steps C M s1 (snd (f x s1))"
  shows "steps C M s (snd (bind r f))"
proof (cases r)
  case (Pair a s1)
  show ?thesis
  proof (cases a)
    case (Inl e)
    with Pair assms(1) show ?thesis by (simp add: bind_def)
  next
    case (Inr x)
    with Pair assms(2) [of x s1] have "steps C M s1 (snd (bind r f))" by (simp add: bind_def)
    with assms(1) Pair show ?thesis by (auto intro: steps_trans)
  qed
qed

lemma steps_rename: "steps C M s (snd (rename a b s))"
  by (simp add: rename_def steps_def split: option.splits)

lemma steps_run_popen: "steps (range Popen) M s (snd (run_popen E args t s))"
  by (auto simp: run_popen_def Let_def steps_def split: sum.splits option.splits)

lemma steps_download_hls_via_ffmpeg:
  "steps (range Popen) M s (snd (download_hls_via_ffmpeg E v a t s))"
  unfolding download_hls_via_ffmpeg_def
  by (rule steps_bind [OF steps_run_popen]) (auto split: sum.splits)

lemma steps_merge_tracks: "steps (range Popen) M s (snd (merge_tracks E v a t s))"
proof -
  have "snd (merge_tracks E v a t s)
        = snd (run_popen E [ffmpeg_path E, ''-i'', v, ''-i'', a, ''-c'', ''copy'', t, ''-y'',
                 ''-loglevel'', ''error''] t s)"
    by (simp add: merge_tracks_def split: prod.splits sum.splits exn.splits)
  then show ?thesis by (simp add: steps_run_popen)
qed

lemma steps_decrypt_video: "steps (range Popen) M s (snd (decrypt_video E a b k s))"
proof -
  have "snd (decrypt_video E a b k s)
        = snd (run_popen E [mp4decrypt_path E, ''--key'', ''1:'' @ k, a, b] b s)"
    by (simp add: decrypt_video_def split: prod.splits sum.splits exn.splits)
  then show ?thesis by (simp add: steps_run_popen)
qed


lemma warning_noise: "''[*] Warning: '' @ m \<in> noise"
  by (simp add: noise_def is_hls_failed_def is_dash_failed_def is_saved_dash_def)

lemma fixed_noise:
  "''[*] Saved via HLS'' \<in> noise" "''[*] Saved via HLS (fallback)'' \<in> noise"
  "''[*] Decrypting...'' \<in> noise" "''Done'' \<in> noise" "''[*] Merging tracks...'' \<in> noise"
  by (simp_all add: noise_def is_hls_failed_def is_dash_failed_def is_saved_dash_def)

lemma probe_msgs_noise: "ffprobe_missing_msg \<in> noise" "ffprobe_failed_msg e \<in> noise"
  using warning_noise [of "''ffprobe not found. Skipping validation.''"]
    warning_noise [of "''ffprobe failed: '' @ str_exn e @ ''. Skipping validation.''"]
  by (simp_all add: ffprobe_missing_msg_def ffprobe_failed_msg_def)

lemma steps_verify:
  "steps (range Ffprobe) noise s (snd (verify_output_or_raise E p ra s))"
  unfolding verify_output_or_raise_def Let_def
  by (auto simp: steps_def probe_msgs_noise split: option.splits sum.splits)



lemma steps_get_license_key:
  "steps (Collect is_license_call) M s (snd (get_license_key E s))"
  by (auto simp: get_license_key_def split: option.splits sum.splits list.splits
        intro!: steps_log_call)

lemma steps_fetch_attempts:
  "steps (range GetSegment) M s (snd (fetch_attempts n E u f s))"
proof -
  from fetch_attempts_calls [of n E u f s]
  obtain k where k: "calls (snd (fetch_attempts n E u f s)) = calls s @ replicate k (segment_call E u)"
    by blast
  have "out (snd (fetch_attempts n E u f s)) = out s"
  proof (induction n arbitrary: s)
    case 0
    then show ?case by simp
  next
    case (Suc n)
    show ?case
    proof (cases "segment_io E (length (calls s)) (segment_request_url E u)")
      case (Inr c)
      then show ?thesis by (simp add: fetch_attempts_Suc_ok)
    next
      case (Inl e)
      show ?thesis
      proof (cases "\<exists>m. e = ChunkedEncodingError m")
        case True
        with Inl have "chunked_at E (length (calls s)) u" by (auto simp: chunked_at_def)
        then show ?thesis using Suc.IH by (simp add: fetch_attempts_Suc_chunked)
      next
        case False
        then have "\<forall>m. e \<noteq> ChunkedEncodingError m" by blast
        from fetch_attempts_Suc_other [OF Inl this] show ?thesis by simp
      qed
    qed
  qed
  with k show ?thesis by (auto simp: steps_def segment_call_def)
qed

lemma steps_fetch_each:
  "steps (range GetSegment) M s (snd (fetch_each E us f s))"
proof (induction us arbitrary: s)
  case Nil
  then show ?case by simp
next
  case (Cons u us)
  show ?case
    unfolding fetch_each.simps
    by (rule steps_bind) (simp_all add: fetch_segment_def steps_fetch_attempts Cons.IH)
qed

lemma steps_fetch_segments:
  "steps (range GetSegment) M s (snd (fetch_segments E us f s))"
  unfolding fetch_segments_def
  by (rule steps_trans [OF steps_write_file steps_fetch_each])

lemma tool_calls_I: "range Popen \<subseteq> tool_calls" "range Ffprobe \<subseteq> tool_calls"
  by (auto simp: tool_calls_def)

lemma dash_calls_I:
  "range Popen \<subseteq> dash_calls" "range Ffprobe \<subseteq> dash_calls" "range GetSegment \<subseteq> dash_calls"
  "Collect is_license_call \<subseteq> dash_calls" "tool_calls \<subseteq> dash_calls"
  by (auto simp: dash_calls_def tool_calls_def elim: is_license_call.elims)

lemma dsteps_fetch_segments:
  "steps dash_calls noise s (snd (fetch_segments E us f s))"
  by (rule steps_mono [OF steps_fetch_segments [of noise]]) (rule dash_calls_I, rule subset_refl)

lemma dsteps_decrypt_video:
  "steps dash_calls noise s (snd (decrypt_video E a b k s))"
  by (rule steps_mono [OF steps_decrypt_video [of noise]]) (rule dash_calls_I, rule subset_refl)

lemma dsteps_merge_tracks:
  "steps dash_calls noise s (snd (merge_tracks E a b t s))"
  by (rule steps_mono [OF steps_merge_tracks [of noise]]) (rule dash_calls_I, rule subset_refl)

lemma dsteps_get_license_key:
  "steps dash_calls noise s (snd (get_license_key E s))"
  by (rule steps_mono [OF steps_get_license_key [of noise]]) (rule dash_calls_I, rule subset_refl)

lemma dsteps_verify:
  "steps dash_calls noise s (snd (verify_output_or_raise E p ra s))"
  by (rule steps_mono [OF steps_verify]) (rule dash_calls_I, rule subset_refl)

lemma steps_dash_fetch:
  "steps dash_calls noise s (snd (dash_fetch E key vs as s))"
  unfolding dash_fetch_def
  by (rule steps_bind) (simp_all add: dsteps_fetch_segments)

lemma steps_dash_decrypt:
  "steps dash_calls noise s (snd (dash_decrypt E key as s))"
proof (cases "truthy key")
  case False
  then show ?thesis by (simp add: dash_decrypt_def)
next
  case True
  have p: "steps dash_calls noise s (print ''[*] Decrypting...'' s)"
    by (rule steps_print) (rule fixed_noise)
  show ?thesis
    unfolding dash_decrypt_def using True
    apply simp
    apply (rule steps_bind)
     apply (rule steps_trans [OF p dsteps_decrypt_video])
    apply (rule steps_bind)
     apply (simp_all add: dsteps_decrypt_video steps_print fixed_noise)
    done
qed

lemma steps_dash_assemble:
  "steps dash_calls noise s (snd (dash_assemble E tmp as s))"
proof -
  have p: "steps dash_calls noise s (print ''[*] Merging tracks...'' s)"
    by (rule steps_print) (rule fixed_noise)
  show ?thesis
    unfolding dash_assemble_def
    apply (cases "as = []")
     apply (simp add: steps_rename)
    apply simp
    apply (rule steps_bind)
     apply (rule steps_trans [OF p dsteps_merge_tracks])
    apply (simp add: steps_print fixed_noise)
    done
qed

lemma steps_dash_produce:
  "steps dash_calls noise s (snd (dash_produce E tmp res s))"
  unfolding dash_produce_def
  apply (rule steps_bind)
   apply (rule dsteps_get_license_key)
  apply (simp split: sum.splits)
  apply (intro allI impI conjI)
  apply (rule steps_bind)
   apply (rule steps_dash_fetch)
  apply (rule steps_bind)
   apply (rule steps_dash_decrypt)
  apply (rule steps_dash_assemble)
  done

lemma steps_dash_rest:
  "steps dash_calls (insert ''[*] Saved via DASH'' noise) s (snd (dash_rest E tmp fp res s))"
  unfolding dash_rest_def
  apply (rule steps_bind)
   apply (rule steps_mono [OF steps_dash_produce], simp, blast)
  apply (rule steps_bind)
   apply (rule steps_mono [OF dsteps_verify], simp, blast)
  apply (rule steps_bind)
   apply (rule steps_rename)
  apply (simp add: steps_print)
  done

subsection \<open>Counting the attempts and the transitions\<close>

lemma run_refl [simp]: "run 0 0 0 0 s s"
  by (simp add: run_def)

lemma run_trans:
  assumes "run a b c d s s1" and "run a' b' c' d' s1 s2"
  shows "run (a + a') (b + b') (c + c') (d + d') s s2"
proof -
  from assms(1) obtain cs os where 1: "calls s1 = calls s @ cs" "out s1 = out s @ os"
      "length (filter is_master_call cs) = a" "length (filter is_hls_failed os) = b"
      "length (filter is_dash_failed os) = c" "length (filter is_saved_dash os) = d"
    unfolding run_def by blast
  from assms(2) obtain cs' os' where 2: "calls s2 = calls s1 @ cs'" "out s2 = out s1 @ os'"
      "length (filter is_master_call cs') = a'" "length (filter is_hls_failed os') = b'"
      "length (filter is_dash_failed os') = c'" "length (filter is_saved_dash os') = d'"
    unfolding run_def by blast
  show ?thesis
    unfolding run_def
    by (rule exI [of _ "cs @ cs'"], rule exI [of _ "os @ os'"]) (simp add: 1 2)
qed

lemma run_trans0:
  "run a b c d s s1 \<Longrightarrow> run 0 0 0 0 s1 s2 \<Longrightarrow> run a b c d s s2"
  using run_trans [of a b c d s s1 0 0 0 0 s2] by simp

lemma steps_run:
  assumes "steps C M s s'" and "C \<subseteq> dash_calls" and "M \<subseteq> noise"
  shows "run 0 0 0 0 s s'"
proof -
  from assms(1) obtain cs os where 1: "calls s' = calls s @ cs" "out s' = out s @ os"
      "set cs \<subseteq> C" "set os \<subseteq> M"
    unfolding steps_def by blast
  have "filter is_master_call cs = []"
    using 1(3) assms(2) by (auto simp: filter_empty_conv dash_calls_def)
  moreover have "filter is_hls_failed os = []" "filter is_dash_failed os = []"
      "filter is_saved_dash os = []"
    using 1(4) assms(3) by (auto simp: filter_empty_conv noise_def)
  ultimately show ?thesis
    unfolding run_def using 1(1,2) by (intro exI [of _ cs] exI [of _ os]) simp
qed

lemma run_new:
  assumes "run a b c d s s'"
  shows "length (filter is_master_call (new_calls s s')) = a
       \<and> length (filter is_hls_failed (new_out s s')) = b
       \<and> length (filter is_dash_failed (new_out s s')) = c
       \<and> length (filter is_saved_dash (new_out s s')) = d"
  using assms unfolding run_def new_calls_def new_out_def by auto

lemma run_fields:
  "run a b c d s s' \<Longrightarrow> run a b c d s (s'\<lparr>playlist_url := u, playlist_type := t\<rparr>)"
  "run a b c d s s' \<Longrightarrow> run a b c d s (s'\<lparr>mpd_master := m\<rparr>)"
  by (simp_all add: run_def)

lemma run_bind_quiet:
  assumes "run a b c d s (snd r)"
    and "\<And>x s1. r = (Inr x, s1) \<Longrightarrow> run 0 0 0 0 s1 (snd (f x s1))"
  shows "run a b c d s (snd (bind r f))"
proof (cases r)
  case (Pair res s1)
  show ?thesis
  proof (cases res)
    case (Inl e)
    with Pair assms(1) show ?thesis by (simp add: bind_def)
  next
    case (Inr x)
    with Pair assms(2) [of x s1] have "run 0 0 0 0 s1 (snd (bind r f))" by (simp add: bind_def)
    with assms(1) Pair show ?thesis by (auto intro: run_trans0)
  qed
qed

lemma hls_failed_msg_marks:
  "is_hls_failed (hls_failed_msg e)" "\<not> is_dash_failed (hls_failed_msg e)"
  "\<not> is_saved_dash (hls_failed_msg e)"
  by (simp_all add: hls_failed_msg_def is_hls_failed_def is_dash_failed_def is_saved_dash_def)

lemma dash_failed_msg_marks:
  "is_dash_failed (dash_failed_msg e)" "\<not> is_hls_failed (dash_failed_msg e)"
  "\<not> is_saved_dash (dash_failed_msg e)"
  by (simp_all add: dash_failed_msg_def is_hls_failed_def is_dash_failed_def is_saved_dash_def)

lemma saved_dash_marks:
  "is_saved_dash ''[*] Saved via DASH''" "\<not> is_hls_failed ''[*] Saved via DASH''"
  "\<not> is_dash_failed ''[*] Saved via DASH''"
  by (simp_all add: is_hls_failed_def is_dash_failed_def is_saved_dash_def)

lemma run_print_hls_failed: "run 0 1 0 0 s (print (hls_failed_msg e) s)"
  unfolding run_def
  by (rule exI [of _ "[]"], rule exI [of _ "[hls_failed_msg e]"])
     (simp add: hls_failed_msg_marks)

lemma run_print_dash_failed: "run 0 0 1 0 s (print (dash_failed_msg e) s)"
  unfolding run_def
  by (rule exI [of _ "[]"], rule exI [of _ "[dash_failed_msg e]"])
     (simp add: dash_failed_msg_marks)

lemma run_print_saved_dash: "run 0 0 0 1 s (print ''[*] Saved via DASH'' s)"
  unfolding run_def
  by (rule exI [of _ "[]"], rule exI [of _ "[''[*] Saved via DASH'']"])
     (simp add: saved_dash_marks del: append.simps list.simps)


lemma snd_select:
  "snd (select_hls_variant_urls E d s) = log_call (GetHlsMaster (playlist_url s)) s"
  by (simp add: select_hls_variant_urls_def get_hls_variants_def load_hls_master_def bind_def
        split: sum.splits)

lemma run_log_master: "run 1 0 0 0 s (log_call (GetHlsMaster u) s)"
  unfolding run_def
  by (rule exI [of _ "[GetHlsMaster u]"], rule exI [of _ "[]"]) simp

lemma quiet_ffmpeg: "run 0 0 0 0 s (snd (download_hls_via_ffmpeg E v a t s))"
  by (rule steps_run [OF steps_download_hls_via_ffmpeg [of noise]])
     (simp_all add: dash_calls_I)

lemma quiet_verify: "run 0 0 0 0 s (snd (verify_output_or_raise E p ra s))"
  by (rule steps_run [OF steps_verify]) (simp_all add: dash_calls_I)

lemma quiet_rename: "run 0 0 0 0 s (snd (rename a b s))"
  by (rule steps_run [OF steps_rename [of "{}" "{}"]]) simp_all

lemma quiet_print: "m \<in> noise \<Longrightarrow> run 0 0 0 0 s (print m s)"
  by (rule steps_run [OF steps_print [of m noise "{}"]]) simp_all

lemma run_hls_produce: "run 1 0 0 0 s (snd (hls_produce E tmp d s))"
proof -
  have "run 1 0 0 0 s (snd (select_hls_variant_urls E d s))"
    by (simp only: snd_select run_log_master)
  then show ?thesis
    unfolding hls_produce_def by (rule run_bind_quiet) (rule quiet_ffmpeg)
qed

lemma run_hls_try: "run 1 0 0 0 s (snd (hls_try E tmp fp d s))"
  unfolding hls_try_def
  apply (rule run_bind_quiet)
   apply (rule run_hls_produce)
  apply (rule run_bind_quiet)
   apply (rule run_trans0 [OF quiet_print quiet_verify])
   apply (rule fixed_noise)
  apply (rule quiet_rename)
  done

lemma run_hls_fallback: "run 1 0 1 0 s (snd (hls_fallback E tmp fp d e s))"
proof -
  let ?s0 = "(print (dash_failed_msg e) s)
                \<lparr>playlist_url := hls_master_playlist_url E, playlist_type := ''hls''\<rparr>"
  have 0: "run 0 0 1 0 s ?s0"
    by (rule run_fields) (rule run_print_dash_failed)
  have 1: "run 1 0 1 0 s (snd (hls_produce E tmp d ?s0))"
    using run_trans [OF 0 run_hls_produce [of ?s0 E tmp d]] by simp
  show ?thesis
    unfolding hls_fallback_def
    apply (rule run_bind_quiet)
     apply (rule 1)
    apply (rule run_bind_quiet)
     apply (rule quiet_verify)
    apply (rule run_bind_quiet)
     apply (rule quiet_rename)
    apply (simp add: quiet_print fixed_noise)
    done
qed

lemma bind_assoc: "bind (bind r f) g = bind r (\<lambda>x s. bind (f x s) g)"
  by (auto simp: bind_def split: prod.splits sum.splits)

lemma dash_rest_checked:
  "dash_rest E tmp fp res s =
     bind (dash_checked E tmp fp res s) (\<lambda>u s7. (Inr (), print ''[*] Saved via DASH'' s7))"
  by (simp add: dash_rest_def dash_checked_def bind_assoc)

lemma quiet_dash_checked: "run 0 0 0 0 s (snd (dash_checked E tmp fp res s))"
proof -
  have "steps dash_calls noise s (snd (dash_checked E tmp fp res s))"
    unfolding dash_checked_def
    apply (rule steps_bind)
     apply (rule steps_dash_produce)
    apply (rule steps_bind)
     apply (rule dsteps_verify)
    apply (rule steps_rename)
    done
  then show ?thesis by (rule steps_run) simp_all
qed

lemma run_dash_rest:
  "(fst (dash_rest E tmp fp res s) = Inr () \<longrightarrow> run 0 0 0 1 s (snd (dash_rest E tmp fp res s)))
   \<and> (fst (dash_rest E tmp fp res s) \<noteq> Inr () \<longrightarrow> run 0 0 0 0 s (snd (dash_rest E tmp fp res s)))"
proof (cases "dash_checked E tmp fp res s")
  case (Pair r s7)
  with quiet_dash_checked [of s E tmp fp res] have q: "run 0 0 0 0 s s7" by simp
  show ?thesis
  proof (cases r)
    case (Inl e)
    with Pair q show ?thesis by (simp add: dash_rest_checked bind_def)
  next
    case (Inr u)
    from run_trans [OF q run_print_saved_dash [of s7]]
    have "run 0 0 0 1 s (print ''[*] Saved via DASH'' s7)" by simp
    with Pair Inr show ?thesis by (simp add: dash_rest_checked bind_def)
  qed
qed

lemma run_dash_attempt:
  "(fst (dash_attempt E tmp fp d s) = Inr () \<and> run 0 0 0 1 s (snd (dash_attempt E tmp fp d s)))
   \<or> run 1 0 1 0 s (snd (dash_attempt E tmp fp d s))"
proof (cases "dash_resolution d s")
  case (Inl e)
  with run_hls_fallback [of s E tmp fp d e] show ?thesis by (simp add: dash_attempt_def)
next
  case (Inr res)
  show ?thesis
  proof (cases "dash_rest E tmp fp res s")
    case (Pair r s1)
    show ?thesis
    proof (cases r)
      case (Inr u)
      with Pair run_dash_rest [of E tmp fp res s] \<open>dash_resolution d s = Inr res\<close>
      show ?thesis by (simp add: dash_attempt_def)
    next
      case (Inl e)
      with Pair run_dash_rest [of E tmp fp res s] have q: "run 0 0 0 0 s s1" by simp
      from run_trans [OF q run_hls_fallback [of s1 E tmp fp "Some res" e]]
      have "run 1 0 1 0 s (snd (hls_fallback E tmp fp (Some res) e s1))" by simp
      with Pair Inl \<open>dash_resolution d s = Inr res\<close> show ?thesis
        by (simp add: dash_attempt_def)
    qed
  qed
qed

subsection \<open>The fallback edges\<close>

lemmas model_defs =
  download_def hls_try_def hls_produce_def hls_fallback_def dash_fallback_def dash_attempt_def
  dash_rest_def dash_produce_def dash_fetch_def dash_decrypt_def dash_assemble_def
  dash_resolution_def fetch_mpd_master_def
  select_hls_variant_urls_def get_hls_variants_def load_hls_master_def
  download_hls_via_ffmpeg_def run_popen_def hls_ffmpeg_args_def merge_tracks_def
  decrypt_video_def get_license_key_def first_adaptation_set_def
  fetch_segments_def fetch_segment_def segment_request_url_def
  get_segments_urls_def set_segments_def rep_segments_def representation_index_def
  rep_resolution_def media_of_def dict_set_def dict_get_def
  verify_output_or_raise_def ffprobe_args_def accepts_def
  rename_def bind_def bindE_def print_def log_call_def write_file_def unlink_def temp_file_def
  Let_def

lemmas example_defs =
  example_env_def example_state_def example_mpd_def example_video_set_def
  example_audio_set_def example_json_def example_proc_def

lemma run_log_mpd: "run 0 0 0 0 s (log_call (GetMpd u) s)"
  unfolding run_def
  by (rule exI [of _ "[GetMpd u]"], rule exI [of _ "[]"]) simp

lemma run_dash_fallback:
  "run 0 1 0 0 s (snd (dash_fallback E tmp fp d e s))
   \<or> run 0 1 0 1 s (snd (dash_fallback E tmp fp d e s))
   \<or> run 1 1 1 0 s (snd (dash_fallback E tmp fp d e s))"
proof -
  let ?s0 = "(print (hls_failed_msg e) s)
                 \<lparr>playlist_url := mpd_master_playlist_url E, playlist_type := ''dash''\<rparr>"
  let ?s1 = "log_call (GetMpd (playlist_url ?s0)) ?s0"
  have 0: "run 0 1 0 0 s ?s0"
    by (rule run_fields) (rule run_print_hls_failed)
  have 1: "run 0 1 0 0 s ?s1"
    by (rule run_trans0 [OF 0 run_log_mpd])
  show ?thesis
  proof (cases "fetch_mpd_io E (length (calls ?s0)) (playlist_url ?s0)")
    case (Inl e')
    then have "snd (dash_fallback E tmp fp d e s) = ?s1"
      by (simp add: dash_fallback_def fetch_mpd_master_def bind_def Let_def)
    with 1 show ?thesis by simp
  next
    case (Inr m)
    let ?s2 = "?s1\<lparr>mpd_master := Some m\<rparr>"
    have 2: "run 0 1 0 0 s ?s2" by (rule run_fields) (rule 1)
    from Inr have eq: "dash_fallback E tmp fp d e s = dash_attempt E tmp fp d ?s2"
      by (simp add: dash_fallback_def fetch_mpd_master_def bind_def Let_def)
    from run_dash_attempt [of E tmp fp d ?s2]
    show ?thesis
    proof
      assume "fst (dash_attempt E tmp fp d ?s2) = Inr ()
              \<and> run 0 0 0 1 ?s2 (snd (dash_attempt E tmp fp d ?s2))"
      with run_trans [OF 2, of 0 0 0 1] eq show ?thesis by simp
    next
      assume "run 1 0 1 0 ?s2 (snd (dash_attempt E tmp fp d ?s2))"
      with run_trans [OF 2, of 1 0 1 0] eq show ?thesis by simp
    qed
  qed
qed

lemma run_download:
  "(playlist_type s = ''hls'' \<longrightarrow>
      run 1 0 0 0 s (snd (download E fp d s)) \<or> run 1 1 0 0 s (snd (download E fp d s))
      \<or> run 1 1 0 1 s (snd (download E fp d s)) \<or> run 2 1 1 0 s (snd (download E fp d s)))
   \<and> (playlist_type s \<noteq> ''hls'' \<longrightarrow>
      run 0 0 0 1 s (snd (download E fp d s)) \<or> run 1 0 1 0 s (snd (download E fp d s)))"
proof (intro conjI impI)
  let ?fp = "with_suffix_mp4 E fp"
  let ?tmp = "?fp @ ''.part''"
  assume h: "playlist_type s = ''hls''"
  show "run 1 0 0 0 s (snd (download E fp d s)) \<or> run 1 1 0 0 s (snd (download E fp d s))
      \<or> run 1 1 0 1 s (snd (download E fp d s)) \<or> run 2 1 1 0 s (snd (download E fp d s))"
  proof (cases "hls_try E ?tmp ?fp d s")
    case (Pair r s1)
    with run_hls_try [of s E ?tmp ?fp d] have 1: "run 1 0 0 0 s s1" by simp
    show ?thesis
    proof (cases r)
      case (Inr u)
      with Pair h 1 show ?thesis by (simp add: download_def Let_def)
    next
      case (Inl e)
      with Pair h have eq: "download E fp d s = dash_fallback E ?tmp ?fp d e s1"
        by (simp add: download_def Let_def)
      from run_dash_fallback [of s1 E ?tmp ?fp d e]
      consider "run 0 1 0 0 s1 (snd (dash_fallback E ?tmp ?fp d e s1))"
        | "run 0 1 0 1 s1 (snd (dash_fallback E ?tmp ?fp d e s1))"
        | "run 1 1 1 0 s1 (snd (dash_fallback E ?tmp ?fp d e s1))"
        by blast
      then show ?thesis
      proof cases
        case 1
        from run_trans [OF \<open>run 1 0 0 0 s s1\<close> 1]
        have "run 1 1 0 0 s (snd (dash_fallback E ?tmp ?fp d e s1))" by simp
        then show ?thesis unfolding eq by blast
      next
        case 2
        from run_trans [OF \<open>run 1 0 0 0 s s1\<close> 2]
        have "run 1 1 0 1 s (snd (dash_fallback E ?tmp ?fp d e s1))" by simp
        then show ?thesis unfolding eq by blast
      next
        case 3
        from run_trans [OF \<open>run 1 0 0 0 s s1\<close> 3]
        have "run 2 1 1 0 s (snd (dash_fallback E ?tmp ?fp d e s1))"
          by (simp add: numeral_2_eq_2)
        then show ?thesis unfolding eq by blast
      qed
    qed
  qed
next
  assume h: "playlist_type s \<noteq> ''hls''"
  then have "download E fp d s
             = dash_attempt E (with_suffix_mp4 E fp @ ''.part'') (with_suffix_mp4 E fp) d s"
    by (simp add: download_def Let_def)
  with run_dash_attempt [of E "with_suffix_mp4 E fp @ ''.part''" "with_suffix_mp4 E fp" d s]
  show "run 0 0 0 1 s (snd (download E fp d s)) \<or> run 1 0 1 0 s (snd (download E fp d s))"
    by auto
qed

subsection \<open>The files a failed call leaves as they were\<close>

lemma fs_print [simp]: "fs (print m s) = fs s"
  by (simp add: print_def)

lemma fs_log_call [simp]: "fs (log_call c s) = fs s"
  by (simp add: log_call_def)

lemma keeps_refl [simp]: "keeps F s s"
  by (simp add: keeps_def)


lemma keeps_mono: "keeps F s s' \<Longrightarrow> F \<subseteq> F' \<Longrightarrow> keeps F' s s'"
  by (auto simp: keeps_def)


lemma keeps_log_call [simp]: "keeps F s (log_call c s)"
  by (simp add: keeps_def)

















lemma keeps_fields [simp]:
  "keeps F s (s'\<lparr>playlist_url := u, playlist_type := t\<rparr>) = keeps F s s'"
  "keeps F s (s'\<lparr>mpd_master := m\<rparr>) = keeps F s s'"
  by (simp_all add: keeps_def)

lemma not_Inr_unit: "(r :: exn + unit) \<noteq> Inr () \<longleftrightarrow> (\<exists>e. r = Inl e)"
  by (cases r) auto













subsection \<open>A failing license request\<close>









subsection \<open>Where the second try and its handler start\<close>

lemma download_dash_start:
  assumes "dash_start E fp d s = Some sd"
  shows "download E fp d s
         = dash_attempt E (with_suffix_mp4 E fp @ ''.part'') (with_suffix_mp4 E fp) d sd"
  using assms
  by (auto simp: dash_start_def download_def dash_fallback_def Let_def bind_def
        split: if_splits prod.splits sum.splits)

lemma download_handler_start:
  assumes "handler_start E fp d s = Some (d', e, s6)"
  shows "download E fp d s
         = hls_fallback E (with_suffix_mp4 E fp @ ''.part'') (with_suffix_mp4 E fp) d' e s6"
proof -
  from assms obtain sd where sd: "dash_start E fp d s = Some sd"
    by (auto simp: handler_start_def Let_def split: option.splits)
  with assms show ?thesis
    unfolding download_dash_start [OF sd]
    by (auto simp: handler_start_def dash_attempt_def Let_def split: sum.splits prod.splits)
qed

lemma run_calls: "run a b c d s s' \<Longrightarrow> \<exists>cs. calls s' = calls s @ cs"
  unfolding run_def by blast

lemma run_dash_start:
  assumes "dash_start E fp d s = Some sd"
  shows "(playlist_type s \<noteq> ''hls'' \<and> run 0 0 0 0 s sd)
         \<or> (playlist_type s = ''hls'' \<and> run 1 1 0 0 s sd)"
proof (cases "playlist_type s = ''hls''")
  case False
  with assms have "sd = s" by (simp add: dash_start_def Let_def)
  with False show ?thesis by (simp add: run_refl)
next
  case True
  let ?fp = "with_suffix_mp4 E fp"
  let ?tmp = "?fp @ ''.part''"
  from assms True obtain e s1 m where t: "hls_try E ?tmp ?fp d s = (Inl e, s1)"
    and sd: "sd = (log_call (GetMpd (mpd_master_playlist_url E))
                    ((print (hls_failed_msg e) s1)
                       \<lparr>playlist_url := mpd_master_playlist_url E, playlist_type := ''dash''\<rparr>))
                  \<lparr>mpd_master := Some m\<rparr>"
    by (auto simp: dash_start_def Let_def fetch_mpd_master_def split: prod.splits sum.splits)
  let ?s0 = "(print (hls_failed_msg e) s1)
               \<lparr>playlist_url := mpd_master_playlist_url E, playlist_type := ''dash''\<rparr>"
  from run_hls_try [of s E ?tmp ?fp d] t have 1: "run 1 0 0 0 s s1" by simp
  have 2: "run 0 1 0 0 s1 ?s0" by (rule run_fields) (rule run_print_hls_failed)
  have 3: "run 0 0 0 0 ?s0 (log_call (GetMpd (mpd_master_playlist_url E)) ?s0)"
    by (rule run_log_mpd)
  from run_trans [OF run_trans [OF 1 2] 3]
  have "run 1 1 0 0 s (log_call (GetMpd (mpd_master_playlist_url E)) ?s0)" by simp
  then have "run 1 1 0 0 s sd" unfolding sd by (rule run_fields)
  with True show ?thesis by simp
qed

lemma run_handler_start:
  assumes "handler_start E fp d s = Some (d', e, s6)"
  shows "(playlist_type s \<noteq> ''hls'' \<and> run 0 0 0 0 s s6)
         \<or> (playlist_type s = ''hls'' \<and> run 1 1 0 0 s s6)"
proof -
  let ?fp = "with_suffix_mp4 E fp"
  let ?tmp = "?fp @ ''.part''"
  from assms obtain sd where sd: "dash_start E fp d s = Some sd"
    by (auto simp: handler_start_def Let_def split: option.splits)
  have "run 0 0 0 0 sd s6"
  proof (cases "dash_resolution d sd")
    case (Inl e1)
    with assms sd have "s6 = sd" by (simp add: handler_start_def Let_def)
    then show ?thesis by (simp add: run_refl)
  next
    case (Inr res)
    with assms sd have r: "dash_rest E ?tmp ?fp res sd = (Inl e, s6)"
      by (auto simp: handler_start_def Let_def split: prod.splits sum.splits)
    with run_dash_rest [of E ?tmp ?fp res sd] show ?thesis by simp
  qed
  with run_dash_start [OF sd] show ?thesis
    by (auto dest: run_trans0)
qed

subsection \<open>The audio stream is required\<close>
















subsection \<open>A rejected output and the fallback\<close>

lemma calls_dash_attempt: "\<exists>cs. calls (snd (dash_attempt E tmp fp d s)) = calls s @ cs"
  using run_dash_attempt [of E tmp fp d s] by (blast dest: run_calls)

lemma mpd_call_dash_fallback:
  assumes "calls s3 = calls s @ cs"
  shows "GetMpd (mpd_master_playlist_url E)
           \<in> set (new_calls s (snd (dash_fallback E tmp fp d e s3)))"
proof -
  let ?s0 = "(print (hls_failed_msg e) s3)
                 \<lparr>playlist_url := mpd_master_playlist_url E, playlist_type := ''dash''\<rparr>"
  let ?s1 = "log_call (GetMpd (mpd_master_playlist_url E)) ?s0"
  have c1: "calls ?s1 = calls s @ cs @ [GetMpd (mpd_master_playlist_url E)]"
    using assms by (simp add: log_call_def print_def)
  have "\<exists>cs'. calls (snd (dash_fallback E tmp fp d e s3)) = calls ?s1 @ cs'"
  proof (cases "fetch_mpd_io E (length (calls ?s0)) (mpd_master_playlist_url E)")
    case (Inl e')
    then have "snd (dash_fallback E tmp fp d e s3) = ?s1"
      by (simp add: dash_fallback_def fetch_mpd_master_def bind_def Let_def)
    then show ?thesis by simp
  next
    case (Inr m)
    then have "snd (dash_fallback E tmp fp d e s3)
               = snd (dash_attempt E tmp fp d (?s1\<lparr>mpd_master := Some m\<rparr>))"
      by (simp add: dash_fallback_def fetch_mpd_master_def bind_def Let_def)
    with calls_dash_attempt [of E tmp fp d "?s1\<lparr>mpd_master := Some m\<rparr>"]
    show ?thesis by simp
  qed
  then obtain cs' where "calls (snd (dash_fallback E tmp fp d e s3)) = calls ?s1 @ cs'" ..
  with c1 show ?thesis by (simp add: new_calls_def)
qed

lemma hls_try_rejected:
  assumes "hls_produce E tmp d s = (Inr u, s2)"
    and "verify_output_or_raise E tmp True (print ''[*] Saved via HLS'' s2) = (Inl e, s3)"
  shows "hls_try E tmp fp d s = (Inl e, s3)"
  using assms by (simp add: hls_try_def bind_def)

lemma dash_rest_rejected:
  assumes "dash_produce E tmp res s = (Inr u, s5)"
    and "verify_output_or_raise E tmp True s5 = (Inl e, s6)"
  shows "dash_rest E tmp fp res s = (Inl e, s6)"
  using assms by (simp add: dash_rest_checked dash_checked_def bind_def)

lemma hls_fallback_rejected:
  assumes "hls_produce E tmp d
             ((print (dash_failed_msg e) s)
                \<lparr>playlist_url := hls_master_playlist_url E, playlist_type := ''hls''\<rparr>)
           = (Inr u, s2)"
    and "verify_output_or_raise E tmp True s2 = (Inl e', s3)"
  shows "hls_fallback E tmp fp d e s = (Inl e', s3)"
  using assms by (simp add: hls_fallback_def hls_produce_def bind_def Let_def split: sum.splits prod.splits)

lemma handler_start_rejected:
  assumes "dash_start E fp d s = Some sd" and "dash_resolution d sd = Inr res"
    and "dash_produce E (with_suffix_mp4 E fp @ ''.part'') res sd = (Inr u, s5)"
    and "verify_output_or_raise E (with_suffix_mp4 E fp @ ''.part'') True s5 = (Inl e, s6)"
  shows "handler_start E fp d s = Some (Some res, e, s6)"
  using assms dash_rest_rejected [OF assms(3,4), of "with_suffix_mp4 E fp"]
  by (simp add: handler_start_def Let_def)

text \<open>
  Claim C1, as the code has it. Both calls of the verifier that follow a produced
  temporary file sit inside a \<^verbatim>\<open>try\<close> whose handler is \<^verbatim>\<open>except Exception\<close> (lines 449 and
  505). When the verifier raises on the file of the primary HLS attempt, \<^verbatim>\<open>download()\<close>
  goes on as the handler of line 451: it prints the HLS failure once and fetches the DASH
  manifest. When the verifier raises on the file of the DASH attempt, whether DASH is the
  primary protocol or was reached from HLS, \<^verbatim>\<open>download()\<close> goes on as the handler of line
  509: it prints the DASH failure once and starts one more HLS attempt. Only in that
  handler (line 515) does the verifier's exception leave \<^verbatim>\<open>download()\<close>: when the verifier
  raises on the file of the HLS attempt made as a fallback from DASH, the call ends with
  that exception.
\<close>

theorem C1_verification_failure:
  "(playlist_type s = ''hls''
      \<and> hls_produce E (with_suffix_mp4 E fp @ ''.part'') d s = (Inr u, s2)
      \<and> verify_output_or_raise E (with_suffix_mp4 E fp @ ''.part'') True
            (print ''[*] Saved via HLS'' s2) = (Inl e, s3)
    \<longrightarrow> download E fp d s
          = dash_fallback E (with_suffix_mp4 E fp @ ''.part'') (with_suffix_mp4 E fp) d e s3
        \<and> length (filter is_hls_failed (new_out s (snd (download E fp d s)))) = 1
        \<and> GetMpd (mpd_master_playlist_url E) \<in> set (new_calls s (snd (download E fp d s))))
   \<and> (dash_start E fp d s = Some sd \<and> dash_resolution d sd = Inr res
      \<and> dash_produce E (with_suffix_mp4 E fp @ ''.part'') res sd = (Inr u, s5)
      \<and> verify_output_or_raise E (with_suffix_mp4 E fp @ ''.part'') True s5 = (Inl e, s6)
    \<longrightarrow> handler_start E fp d s = Some (Some res, e, s6)
        \<and> download E fp d s
          = hls_fallback E (with_suffix_mp4 E fp @ ''.part'') (with_suffix_mp4 E fp) (Some res) e s6
        \<and> length (filter is_dash_failed (new_out s (snd (download E fp d s)))) = 1
        \<and> length (filter is_master_call (new_calls s (snd (download E fp d s))))
            = (if playlist_type s = ''hls'' then 2 else 1))
   \<and> (handler_start E fp d s = Some (d', e0, s6)
      \<and> hls_produce E (with_suffix_mp4 E fp @ ''.part'') d'
           ((print (dash_failed_msg e0) s6)
              \<lparr>playlist_url := hls_master_playlist_url E, playlist_type := ''hls''\<rparr>)
         = (Inr u, s7)
      \<and> verify_output_or_raise E (with_suffix_mp4 E fp @ ''.part'') True s7 = (Inl e', s8)
    \<longrightarrow> download E fp d s = (Inl e', s8))"
proof (intro conjI impI)
  let ?fp = "with_suffix_mp4 E fp"
  let ?tmp = "?fp @ ''.part''"
  assume a: "playlist_type s = ''hls'' \<and> hls_produce E ?tmp d s = (Inr u, s2)
      \<and> verify_output_or_raise E ?tmp True (print ''[*] Saved via HLS'' s2) = (Inl e, s3)"
  then have t: "hls_try E ?tmp ?fp d s = (Inl e, s3)"
    by (simp add: hls_try_rejected)
  with a show eq: "download E fp d s = dash_fallback E ?tmp ?fp d e s3"
    by (simp add: download_def Let_def)
  from run_hls_try [of s E ?tmp ?fp d] t have r: "run 1 0 0 0 s s3" by simp
  from run_dash_fallback [of s3 E ?tmp ?fp d e]
  obtain a' c' d'' where "run a' 1 c' d'' s3 (snd (dash_fallback E ?tmp ?fp d e s3))"
    by blast
  from run_new [OF run_trans [OF r this]]
  show "length (filter is_hls_failed (new_out s (snd (download E fp d s)))) = 1"
    unfolding eq by simp
  from run_calls [OF r] obtain cs where "calls s3 = calls s @ cs" ..
  from mpd_call_dash_fallback [OF this]
  show "GetMpd (mpd_master_playlist_url E) \<in> set (new_calls s (snd (download E fp d s)))"
    unfolding eq .
next
  let ?fp = "with_suffix_mp4 E fp"
  let ?tmp = "?fp @ ''.part''"
  assume b: "dash_start E fp d s = Some sd \<and> dash_resolution d sd = Inr res
      \<and> dash_produce E ?tmp res sd = (Inr u, s5)
      \<and> verify_output_or_raise E ?tmp True s5 = (Inl e, s6)"
  then show h: "handler_start E fp d s = Some (Some res, e, s6)"
    by (intro handler_start_rejected) blast+
  show eq: "download E fp d s = hls_fallback E ?tmp ?fp (Some res) e s6"
    by (rule download_handler_start [OF h])
  let ?s' = "snd (hls_fallback E ?tmp ?fp (Some res) e s6)"
  have "length (filter is_dash_failed (new_out s ?s')) = 1
        \<and> length (filter is_master_call (new_calls s ?s'))
            = (if playlist_type s = ''hls'' then 2 else 1)"
  proof (cases "playlist_type s = ''hls''")
    case True
    with run_handler_start [OF h] have "run 1 1 0 0 s s6" by simp
    from run_new [OF run_trans [OF this run_hls_fallback [of s6 E ?tmp ?fp "Some res" e]]] True
    show ?thesis by simp
  next
    case False
    with run_handler_start [OF h] have "run 0 0 0 0 s s6" by simp
    from run_new [OF run_trans [OF this run_hls_fallback [of s6 E ?tmp ?fp "Some res" e]]] False
    show ?thesis by simp
  qed
  then show "length (filter is_dash_failed (new_out s (snd (download E fp d s)))) = 1"
    and "length (filter is_master_call (new_calls s (snd (download E fp d s))))
            = (if playlist_type s = ''hls'' then 2 else 1)"
    unfolding eq by blast+
next
  let ?fp = "with_suffix_mp4 E fp"
  let ?tmp = "?fp @ ''.part''"
  assume c: "handler_start E fp d s = Some (d', e0, s6)
      \<and> hls_produce E ?tmp d'
           ((print (dash_failed_msg e0) s6)
              \<lparr>playlist_url := hls_master_playlist_url E, playlist_type := ''hls''\<rparr>)
         = (Inr u, s7)
      \<and> verify_output_or_raise E ?tmp True s7 = (Inl e', s8)"
  then have "download E fp d s = hls_fallback E ?tmp ?fp d' e0 s6"
    by (intro download_handler_start) blast
  moreover from c have "hls_fallback E ?tmp ?fp d' e0 s6 = (Inl e', s8)"
    by (intro hls_fallback_rejected) blast+
  ultimately show "download E fp d s = (Inl e', s8)" by simp
qed

text \<open>
  Claim C1 as stated fails: the HLS muxer writes a file too short to be accepted, the
  verifier rejects it, and \<^verbatim>\<open>download()\<close> falls back to DASH and returns normally with the
  DASH output saved.
\<close>

theorem C1_fallback_counterexample:
  "fst (hls_produce short_hls_env ''o.mp4.part'' (Some (Some 1280, 720)) (example_state ''hls''))
     = Inr ()
   \<and> fst (verify_output_or_raise short_hls_env ''o.mp4.part'' True
          (print ''[*] Saved via HLS''
             (snd (hls_produce short_hls_env ''o.mp4.part'' (Some (Some 1280, 720))
                     (example_state ''hls''))))) = Inl validation_failed
   \<and> fst (download short_hls_env ''o.mp4'' (Some (Some 1280, 720)) (example_state ''hls'')) = Inr ()
   \<and> filter (\<lambda>c. is_master_call c \<or> is_mpd_call c)
        (calls (snd (download short_hls_env ''o.mp4'' (Some (Some 1280, 720))
                       (example_state ''hls''))))
      = [GetHlsMaster ''m.m3u8'', GetMpd ''m.mpd'']
   \<and> out (snd (download short_hls_env ''o.mp4'' (Some (Some 1280, 720)) (example_state ''hls'')))
      = [''[*] Saved via HLS'', hls_failed_msg validation_failed, ''[*] Saved via DASH'']
   \<and> fs (snd (download short_hls_env ''o.mp4'' (Some (Some 1280, 720)) (example_state ''hls'')))
        ''o.mp4'' = Some ''good''"
  by (simp add: model_defs example_defs short_hls_env_def example_variants select_variant_def
        height_leq_def v_res_def v_video_uri_def v_audio_uri_def dedup_segments_eq
        fetch_attempts.simps eval_nat_numeral hls_failed_msg_def)




text \<open>
  The three cases in one call: the HLS muxer writes a file of 0.3 seconds and the segment
  of the manifest has no audio stream. The primary HLS output is rejected, the DASH output
  is rejected, and the output of the second HLS attempt is rejected: the call ends with
  the verifier's exception.
\<close>

theorem C1_verification_failure_witness:
  "fst (hls_produce reject_env ''o.mp4.part'' (Some (Some 1280, 720)) (example_state ''hls''))
     = Inr ()
   \<and> fst (verify_output_or_raise reject_env ''o.mp4.part'' True
          (print ''[*] Saved via HLS''
             (snd (hls_produce reject_env ''o.mp4.part'' (Some (Some 1280, 720))
                     (example_state ''hls''))))) = Inl validation_failed
   \<and> (\<exists>sd. dash_start reject_env ''o.mp4'' (Some (Some 1280, 720)) (example_state ''hls'') = Some sd
          \<and> fst (dash_produce reject_env ''o.mp4.part'' (Some 1280, 720) sd) = Inr ()
          \<and> fst (verify_output_or_raise reject_env ''o.mp4.part'' True
                    (snd (dash_produce reject_env ''o.mp4.part'' (Some 1280, 720) sd)))
              = Inl validation_failed)
   \<and> length (filter is_hls_failed
        (new_out (example_state ''hls'')
           (snd (download reject_env ''o.mp4'' (Some (Some 1280, 720))
                   (example_state ''hls''))))) = 1
   \<and> GetMpd ''m.mpd''
        \<in> set (new_calls (example_state ''hls'')
             (snd (download reject_env ''o.mp4'' (Some (Some 1280, 720))
                     (example_state ''hls''))))
   \<and> length (filter is_dash_failed
        (new_out (example_state ''hls'')
           (snd (download reject_env ''o.mp4'' (Some (Some 1280, 720))
                   (example_state ''hls''))))) = 1
   \<and> length (filter is_master_call
        (new_calls (example_state ''hls'')
           (snd (download reject_env ''o.mp4'' (Some (Some 1280, 720))
                   (example_state ''hls''))))) = 2
   \<and> fst (download reject_env ''o.mp4'' (Some (Some 1280, 720)) (example_state ''hls''))
       = Inl validation_failed"
proof -
  let ?res = "(Some 1280, 720) :: resolution"
  let ?D = "Some ?res"
  let ?h = "example_state ''hls''"
  let ?E = reject_env
  let ?tmp = "with_suffix_mp4 ?E ''o.mp4'' @ ''.part''"
  let ?fp = "with_suffix_mp4 ?E ''o.mp4''"
  let ?P = "hls_produce ?E ?tmp ?D ?h"
  let ?V = "verify_output_or_raise ?E ?tmp True (print ''[*] Saved via HLS'' (snd ?P))"
  let ?sd = "the (dash_start ?E ''o.mp4'' ?D ?h)"
  let ?Q = "dash_produce ?E ?tmp ?res ?sd"
  let ?W = "verify_output_or_raise ?E ?tmp True (snd ?Q)"
  let ?s0 = "(print (dash_failed_msg validation_failed) (snd ?W))
               \<lparr>playlist_url := hls_master_playlist_url ?E, playlist_type := ''hls''\<rparr>"
  let ?P2 = "hls_produce ?E ?tmp ?D ?s0"
  let ?V2 = "verify_output_or_raise ?E ?tmp True (snd ?P2)"
  let ?s' = "snd (download ?E ''o.mp4'' ?D ?h)"
  note ev = model_defs example_defs reject_env_def short_hls_env_def mute_mpd_def
      example_variants select_variant_def height_leq_def v_res_def v_video_uri_def
      v_audio_uri_def dedup_segments_eq fetch_attempts.simps eval_nat_numeral dash_start_def
  have w: "?tmp = ''o.mp4.part''"
    by (simp add: reject_env_def short_hls_env_def example_env_def)
  have m: "mpd_master_playlist_url ?E = ''m.mpd''"
    by (simp add: reject_env_def short_hls_env_def example_env_def)
  have tA: "playlist_type ?h = ''hls''" by (simp add: example_state_def)
  have p: "fst ?P = Inr ()" by (simp add: ev)
  have v: "fst ?V = Inl validation_failed" by (simp add: ev)
  have ds: "dash_start ?E ''o.mp4'' ?D ?h \<noteq> None" by (simp add: ev)
  then have sd: "dash_start ?E ''o.mp4'' ?D ?h = Some ?sd" by simp
  have r: "dash_resolution ?D ?sd = Inr ?res" by (simp add: dash_resolution_def)
  have q: "fst ?Q = Inr ()" by (simp add: ev)
  have x: "fst ?W = Inl validation_failed" by (simp add: ev)
  have p2: "fst ?P2 = Inr ()" by (simp add: ev)
  have v2: "fst ?V2 = Inl validation_failed" by (simp add: ev)
  have P: "?P = (Inr (), snd ?P)" using p by (simp add: prod_eq_iff)
  have V: "?V = (Inl validation_failed, snd ?V)" using v by (simp add: prod_eq_iff)
  have Q: "?Q = (Inr (), snd ?Q)" using q by (simp add: prod_eq_iff)
  have W: "?W = (Inl validation_failed, snd ?W)" using x by (simp add: prod_eq_iff)
  have P2: "?P2 = (Inr (), snd ?P2)" using p2 by (simp add: prod_eq_iff)
  have V2: "?V2 = (Inl validation_failed, snd ?V2)" using v2 by (simp add: prod_eq_iff)
  note T = C1_verification_failure [where E = ?E and s = ?h and fp = "''o.mp4''" and d = ?D
      and u = "()" and ?s2.0 = "snd ?P" and e = validation_failed and ?s3.0 = "snd ?V"
      and sd = ?sd and res = ?res and ?s5.0 = "snd ?Q" and ?s6.0 = "snd ?W"
      and d' = ?D and ?e0.0 = validation_failed and ?s7.0 = "snd ?P2"
      and e' = validation_failed and ?s8.0 = "snd ?V2"]
  from T tA P V
  have A: "length (filter is_hls_failed (new_out ?h ?s')) = 1
           \<and> GetMpd (mpd_master_playlist_url ?E) \<in> set (new_calls ?h ?s')"
    by blast
  from T sd r Q W
  have B: "handler_start ?E ''o.mp4'' ?D ?h = Some (?D, validation_failed, snd ?W)
           \<and> length (filter is_dash_failed (new_out ?h ?s')) = 1
           \<and> length (filter is_master_call (new_calls ?h ?s'))
               = (if playlist_type ?h = ''hls'' then 2 else 1)"
    by blast
  with T P2 V2 have C: "download ?E ''o.mp4'' ?D ?h = (Inl validation_failed, snd ?V2)"
    by blast
  then have C': "fst (download ?E ''o.mp4'' ?D ?h) = Inl validation_failed" by simp
  from B tA have B': "length (filter is_dash_failed (new_out ?h ?s')) = 1"
    "length (filter is_master_call (new_calls ?h ?s')) = 2"
    by simp_all
  from sd q x have S: "\<exists>sd. dash_start ?E ''o.mp4'' ?D ?h = Some sd
          \<and> fst (dash_produce ?E ?tmp ?res sd) = Inr ()
          \<and> fst (verify_output_or_raise ?E ?tmp True (snd (dash_produce ?E ?tmp ?res sd)))
              = Inl validation_failed"
    by blast
  from p v S A [unfolded m] B' C' show ?thesis unfolding w by blast
qed

subsection \<open>The fallback edges and the end of the call\<close>

lemma count_edges:
  "length (filter is_hls_failed (new_out s (snd (download E fp d s)))) \<le> 1
   \<and> length (filter is_dash_failed (new_out s (snd (download E fp d s)))) \<le> 1
   \<and> length (filter is_master_call (new_calls s (snd (download E fp d s)))) \<le> 2
   \<and> length (filter is_dash_failed (new_out s (snd (download E fp d s))))
       + length (filter is_saved_dash (new_out s (snd (download E fp d s)))) \<le> 1
   \<and> (playlist_type s \<noteq> ''hls'' \<longrightarrow>
        length (filter is_hls_failed (new_out s (snd (download E fp d s)))) = 0
        \<and> length (filter is_master_call (new_calls s (snd (download E fp d s)))) \<le> 1)
   \<and> (length (filter is_master_call (new_calls s (snd (download E fp d s)))) = 2 \<longrightarrow>
        playlist_type s = ''hls''
        \<and> length (filter is_hls_failed (new_out s (snd (download E fp d s)))) = 1
        \<and> length (filter is_dash_failed (new_out s (snd (download E fp d s)))) = 1)
   \<and> (length (filter is_hls_failed (new_out s (snd (download E fp d s)))) = 1
        \<and> length (filter is_dash_failed (new_out s (snd (download E fp d s)))) = 1 \<longrightarrow>
        length (filter is_master_call (new_calls s (snd (download E fp d s)))) = 2)"
proof (cases "playlist_type s = ''hls''")
  case True
  with run_download [of s E fp d]
  consider "run 1 0 0 0 s (snd (download E fp d s))" | "run 1 1 0 0 s (snd (download E fp d s))"
    | "run 1 1 0 1 s (snd (download E fp d s))" | "run 2 1 1 0 s (snd (download E fp d s))"
    by blast
  then show ?thesis
    by cases (use True in \<open>auto dest!: run_new\<close>)
next
  case False
  with run_download [of s E fp d]
  consider "run 0 0 0 1 s (snd (download E fp d s))" | "run 1 0 1 0 s (snd (download E fp d s))"
    by blast
  then show ?thesis
    by cases (use False in \<open>auto dest!: run_new\<close>)
qed

lemma bind_fst_Inl: "fst r = Inl e \<Longrightarrow> fst (bind r f) = Inl e"
  by (cases r) (auto simp: bind_def)

lemma hls_produce_master_fails:
  assumes "load_hls_master_io E (length (calls s)) (playlist_url s) = Inl e"
  shows "fst (hls_produce E tmp d s) = Inl e"
  using assms
  by (simp add: hls_produce_def select_hls_variant_urls_def get_hls_variants_def
        load_hls_master_def bind_def)

lemma hls_fallback_master_fails:
  assumes "\<forall>n u. \<exists>e. load_hls_master_io E n u = Inl e"
  shows "\<exists>e'. fst (hls_fallback E tmp fp d e s) = Inl e'"
proof -
  let ?s0 = "(print (dash_failed_msg e) s)
                \<lparr>playlist_url := hls_master_playlist_url E, playlist_type := ''hls''\<rparr>"
  from assms obtain e' where "load_hls_master_io E (length (calls ?s0)) (playlist_url ?s0) = Inl e'"
    by blast
  from hls_produce_master_fails [OF this]
  have "fst (hls_produce E tmp d ?s0) = Inl e'" .
  then have "fst (hls_fallback E tmp fp d e s) = Inl e'"
    unfolding hls_fallback_def Let_def by (rule bind_fst_Inl)
  then show ?thesis ..
qed

lemma count_handler_start:
  assumes "handler_start E fp d s = Some (d', e, s6)"
  shows "length (filter is_master_call (new_calls s (snd (download E fp d s))))
           = (if playlist_type s = ''hls'' then 2 else 1)
       \<and> length (filter is_hls_failed (new_out s (snd (download E fp d s))))
           = (if playlist_type s = ''hls'' then 1 else 0)
       \<and> length (filter is_dash_failed (new_out s (snd (download E fp d s)))) = 1
       \<and> length (filter is_saved_dash (new_out s (snd (download E fp d s)))) = 0"
proof -
  let ?fp = "with_suffix_mp4 E fp"
  let ?tmp = "?fp @ ''.part''"
  note eq = download_handler_start [OF assms]
  show ?thesis
  proof (cases "playlist_type s = ''hls''")
    case True
    with run_handler_start [OF assms] have "run 1 1 0 0 s s6" by simp
    from run_new [OF run_trans [OF this run_hls_fallback [of s6 E ?tmp ?fp d' e]]] True
    show ?thesis unfolding eq by simp
  next
    case False
    with run_handler_start [OF assms] have "run 0 0 0 0 s s6" by simp
    from run_new [OF run_trans [OF this run_hls_fallback [of s6 E ?tmp ?fp d' e]]] False
    show ?thesis unfolding eq by simp
  qed
qed

lemma download_mpd_fails:
  assumes "playlist_type s = ''hls''"
    and "hls_try E (with_suffix_mp4 E fp @ ''.part'') (with_suffix_mp4 E fp) d s = (Inl e, s1)"
    and "fetch_mpd_io E (length (calls s1)) (mpd_master_playlist_url E) = Inl e1"
  shows "download E fp d s
         = (Inl e1, log_call (GetMpd (mpd_master_playlist_url E))
                      ((print (hls_failed_msg e) s1)
                         \<lparr>playlist_url := mpd_master_playlist_url E, playlist_type := ''dash''\<rparr>))"
  using assms
  by (simp add: download_def Let_def dash_fallback_def fetch_mpd_master_def bind_def
        print_def)

text \<open>
  Claim C4, as the code has it. In one call of \<^verbatim>\<open>download()\<close> the edge from HLS to
  DASH is taken at most once and the edge from DASH to HLS at most once; at most one DASH
  attempt is made and at most two HLS attempts. A call that starts with DASH never takes
  the edge from HLS to DASH and makes at most one HLS attempt. Two HLS attempts are made
  exactly when both edges are taken, by a call that starts with HLS: after the HLS attempt
  and the DASH attempt have failed, the handler of the DASH attempt runs the HLS pipeline
  again. Whenever that handler is entered, what it does is the end of the call: the call
  has made one HLS attempt more than before and no further DASH attempt, and when the
  HLS attempt of the handler fails, the call ends with its error; it does fail when the
  master playlist cannot be loaded at any time. A call that starts with DASH, whose DASH
  attempt fails and whose HLS fallback fails, ends with the error of the fallback. A call
  that starts with HLS, whose HLS attempt fails and which cannot fetch the DASH manifest,
  ends with the error of the fetch, without a DASH attempt.
\<close>

theorem C4_fallback_edges:
  "(handler_start E fp d s = Some (d', e, s6) \<longrightarrow>
        download E fp d s
          = hls_fallback E (with_suffix_mp4 E fp @ ''.part'') (with_suffix_mp4 E fp) d' e s6
        \<and> length (filter is_master_call (new_calls s (snd (download E fp d s))))
            = (if playlist_type s = ''hls'' then 2 else 1)
        \<and> length (filter is_hls_failed (new_out s (snd (download E fp d s))))
            = (if playlist_type s = ''hls'' then 1 else 0)
        \<and> length (filter is_dash_failed (new_out s (snd (download E fp d s)))) = 1
        \<and> length (filter is_saved_dash (new_out s (snd (download E fp d s)))) = 0
        \<and> (\<forall>e'. fst (hls_fallback E (with_suffix_mp4 E fp @ ''.part'') (with_suffix_mp4 E fp)
                      d' e s6) = Inl e' \<longrightarrow>
               fst (download E fp d s) = Inl e')
        \<and> ((\<forall>n u. \<exists>e1. load_hls_master_io E n u = Inl e1) \<longrightarrow>
               (\<exists>e'. fst (download E fp d s) = Inl e')))
   \<and> (playlist_type s \<noteq> ''hls'' \<and> dash_resolution d s = Inr res
      \<and> dash_rest E (with_suffix_mp4 E fp @ ''.part'') (with_suffix_mp4 E fp) res s = (Inl e, s6)
      \<and> fst (hls_fallback E (with_suffix_mp4 E fp @ ''.part'') (with_suffix_mp4 E fp)
                (Some res) e s6) = Inl e' \<longrightarrow>
        handler_start E fp d s = Some (Some res, e, s6)
        \<and> fst (download E fp d s) = Inl e')
   \<and> (playlist_type s = ''hls''
      \<and> hls_try E (with_suffix_mp4 E fp @ ''.part'') (with_suffix_mp4 E fp) d s = (Inl e, s1)
      \<and> fetch_mpd_io E (length (calls s1)) (mpd_master_playlist_url E) = Inl e1 \<longrightarrow>
        fst (download E fp d s) = Inl e1
        \<and> length (filter is_master_call (new_calls s (snd (download E fp d s)))) = 1
        \<and> length (filter is_dash_failed (new_out s (snd (download E fp d s)))) = 0
        \<and> length (filter is_saved_dash (new_out s (snd (download E fp d s)))) = 0)
   \<and> length (filter is_hls_failed (new_out s (snd (download E fp d s)))) \<le> 1
   \<and> length (filter is_dash_failed (new_out s (snd (download E fp d s)))) \<le> 1
   \<and> length (filter is_master_call (new_calls s (snd (download E fp d s)))) \<le> 2
   \<and> length (filter is_dash_failed (new_out s (snd (download E fp d s))))
       + length (filter is_saved_dash (new_out s (snd (download E fp d s)))) \<le> 1
   \<and> (playlist_type s \<noteq> ''hls'' \<longrightarrow>
        length (filter is_hls_failed (new_out s (snd (download E fp d s)))) = 0
        \<and> length (filter is_master_call (new_calls s (snd (download E fp d s)))) \<le> 1)
   \<and> (length (filter is_master_call (new_calls s (snd (download E fp d s)))) = 2 \<longrightarrow>
        playlist_type s = ''hls''
        \<and> length (filter is_hls_failed (new_out s (snd (download E fp d s)))) = 1
        \<and> length (filter is_dash_failed (new_out s (snd (download E fp d s)))) = 1)
   \<and> (length (filter is_hls_failed (new_out s (snd (download E fp d s)))) = 1
        \<and> length (filter is_dash_failed (new_out s (snd (download E fp d s)))) = 1 \<longrightarrow>
        length (filter is_master_call (new_calls s (snd (download E fp d s)))) = 2)"
proof -
  let ?fp = "with_suffix_mp4 E fp"
  let ?tmp = "?fp @ ''.part''"
  have H: "handler_start E fp d s = Some (d', e, s6) \<longrightarrow>
        download E fp d s = hls_fallback E ?tmp ?fp d' e s6
        \<and> length (filter is_master_call (new_calls s (snd (download E fp d s))))
            = (if playlist_type s = ''hls'' then 2 else 1)
        \<and> length (filter is_hls_failed (new_out s (snd (download E fp d s))))
            = (if playlist_type s = ''hls'' then 1 else 0)
        \<and> length (filter is_dash_failed (new_out s (snd (download E fp d s)))) = 1
        \<and> length (filter is_saved_dash (new_out s (snd (download E fp d s)))) = 0
        \<and> (\<forall>e'. fst (hls_fallback E ?tmp ?fp d' e s6) = Inl e' \<longrightarrow>
               fst (download E fp d s) = Inl e')
        \<and> ((\<forall>n u. \<exists>e1. load_hls_master_io E n u = Inl e1) \<longrightarrow>
               (\<exists>e'. fst (download E fp d s) = Inl e'))"
  proof
    assume h: "handler_start E fp d s = Some (d', e, s6)"
    note eq = download_handler_start [OF h]
    have f: "(\<forall>n u. \<exists>e1. load_hls_master_io E n u = Inl e1) \<longrightarrow>
               (\<exists>e'. fst (download E fp d s) = Inl e')"
      unfolding eq by (rule impI) (rule hls_fallback_master_fails)
    have g: "\<forall>e'. fst (hls_fallback E ?tmp ?fp d' e s6) = Inl e' \<longrightarrow>
               fst (download E fp d s) = Inl e'"
      unfolding eq by simp
    from eq count_handler_start [OF h] f g
    show "download E fp d s = hls_fallback E ?tmp ?fp d' e s6
        \<and> length (filter is_master_call (new_calls s (snd (download E fp d s))))
            = (if playlist_type s = ''hls'' then 2 else 1)
        \<and> length (filter is_hls_failed (new_out s (snd (download E fp d s))))
            = (if playlist_type s = ''hls'' then 1 else 0)
        \<and> length (filter is_dash_failed (new_out s (snd (download E fp d s)))) = 1
        \<and> length (filter is_saved_dash (new_out s (snd (download E fp d s)))) = 0
        \<and> (\<forall>e'. fst (hls_fallback E ?tmp ?fp d' e s6) = Inl e' \<longrightarrow>
               fst (download E fp d s) = Inl e')
        \<and> ((\<forall>n u. \<exists>e1. load_hls_master_io E n u = Inl e1) \<longrightarrow>
               (\<exists>e'. fst (download E fp d s) = Inl e'))"
      by (intro conjI) (elim conjE, assumption)+
  qed
  have D: "playlist_type s \<noteq> ''hls'' \<and> dash_resolution d s = Inr res
      \<and> dash_rest E ?tmp ?fp res s = (Inl e, s6)
      \<and> fst (hls_fallback E ?tmp ?fp (Some res) e s6) = Inl e' \<longrightarrow>
        handler_start E fp d s = Some (Some res, e, s6)
        \<and> fst (download E fp d s) = Inl e'"
  proof
    assume a: "playlist_type s \<noteq> ''hls'' \<and> dash_resolution d s = Inr res
      \<and> dash_rest E ?tmp ?fp res s = (Inl e, s6)
      \<and> fst (hls_fallback E ?tmp ?fp (Some res) e s6) = Inl e'"
    then have h: "handler_start E fp d s = Some (Some res, e, s6)"
      by (simp add: handler_start_def dash_start_def Let_def)
    from download_handler_start [OF h] a h
    show "handler_start E fp d s = Some (Some res, e, s6) \<and> fst (download E fp d s) = Inl e'"
      by simp
  qed
  have M: "playlist_type s = ''hls''
      \<and> hls_try E ?tmp ?fp d s = (Inl e, s1)
      \<and> fetch_mpd_io E (length (calls s1)) (mpd_master_playlist_url E) = Inl e1 \<longrightarrow>
        fst (download E fp d s) = Inl e1
        \<and> length (filter is_master_call (new_calls s (snd (download E fp d s)))) = 1
        \<and> length (filter is_dash_failed (new_out s (snd (download E fp d s)))) = 0
        \<and> length (filter is_saved_dash (new_out s (snd (download E fp d s)))) = 0"
  proof
    assume a: "playlist_type s = ''hls''
      \<and> hls_try E ?tmp ?fp d s = (Inl e, s1)
      \<and> fetch_mpd_io E (length (calls s1)) (mpd_master_playlist_url E) = Inl e1"
    let ?s0 = "(print (hls_failed_msg e) s1)
                 \<lparr>playlist_url := mpd_master_playlist_url E, playlist_type := ''dash''\<rparr>"
    from a have eq: "download E fp d s
                     = (Inl e1, log_call (GetMpd (mpd_master_playlist_url E)) ?s0)"
      by (intro download_mpd_fails) blast+
    from run_hls_try [of s E ?tmp ?fp d] a have 1: "run 1 0 0 0 s s1" by simp
    have 2: "run 0 1 0 0 s1 ?s0" by (rule run_fields) (rule run_print_hls_failed)
    have 3: "run 0 0 0 0 ?s0 (log_call (GetMpd (mpd_master_playlist_url E)) ?s0)"
      by (rule run_log_mpd)
    from run_new [OF run_trans [OF run_trans [OF 1 2] 3]]
    show "fst (download E fp d s) = Inl e1
        \<and> length (filter is_master_call (new_calls s (snd (download E fp d s)))) = 1
        \<and> length (filter is_dash_failed (new_out s (snd (download E fp d s)))) = 0
        \<and> length (filter is_saved_dash (new_out s (snd (download E fp d s)))) = 0"
      unfolding eq by simp
  qed
  show ?thesis
    by (rule conjI [OF H conjI [OF D conjI [OF M count_edges]]])
qed

text \<open>
  Failures that last: the master playlist never loads and no segment can be fetched. A
  call that starts with HLS makes two HLS attempts and one DASH attempt and ends with the
  error of the second HLS attempt; a call that starts with DASH makes one attempt of each
  and ends with the error of the HLS attempt.
\<close>

theorem C4_fallback_edges_witness:
  "(\<forall>n u. \<exists>e1. load_hls_master_io blocked_env n u = Inl e1)
   \<and> handler_start blocked_env ''o.mp4'' (Some (Some 1280, 720)) (example_state ''hls'') \<noteq> None
   \<and> (\<exists>e'. fst (download blocked_env ''o.mp4'' (Some (Some 1280, 720)) (example_state ''hls''))
              = Inl e')
   \<and> length (filter is_master_call
        (new_calls (example_state ''hls'')
           (snd (download blocked_env ''o.mp4'' (Some (Some 1280, 720))
                   (example_state ''hls''))))) = 2
   \<and> length (filter is_hls_failed
        (new_out (example_state ''hls'')
           (snd (download blocked_env ''o.mp4'' (Some (Some 1280, 720))
                   (example_state ''hls''))))) = 1
   \<and> length (filter is_dash_failed
        (new_out (example_state ''hls'')
           (snd (download blocked_env ''o.mp4'' (Some (Some 1280, 720))
                   (example_state ''hls''))))) = 1
   \<and> fst (dash_rest blocked_env ''o.mp4.part'' ''o.mp4'' (Some 1280, 720) (example_state ''dash''))
       = Inl (LibraryError ''ConnectionError'' ''reset'')
   \<and> fst (download blocked_env ''o.mp4'' (Some (Some 1280, 720)) (example_state ''dash''))
       = Inl (LibraryError ''HTTPError'' ''503'')
   \<and> length (filter is_master_call
        (new_calls (example_state ''dash'')
           (snd (download blocked_env ''o.mp4'' (Some (Some 1280, 720))
                   (example_state ''dash''))))) = 1"
proof -
  let ?res = "(Some 1280, 720) :: resolution"
  let ?D = "Some ?res"
  let ?h = "example_state ''hls''"
  let ?d = "example_state ''dash''"
  let ?E = blocked_env
  let ?fp = "with_suffix_mp4 ?E ''o.mp4''"
  let ?tmp = "?fp @ ''.part''"
  let ?R = "dash_rest ?E ?tmp ?fp ?res ?d"
  let ?e = "LibraryError ''ConnectionError'' ''reset''"
  let ?e' = "LibraryError ''HTTPError'' ''503''"
  note ev = model_defs example_defs blocked_env_def
      example_variants select_variant_def height_leq_def v_res_def v_video_uri_def
      v_audio_uri_def dedup_segments_eq fetch_attempts.simps eval_nat_numeral dash_start_def
      handler_start_def
  have w: "?tmp = ''o.mp4.part''" "?fp = ''o.mp4''" by (simp_all add: blocked_env_def example_env_def)
  have forced: "\<forall>n u. \<exists>e1. load_hls_master_io ?E n u = Inl e1"
    by (simp add: blocked_env_def)
  have hs: "handler_start ?E ''o.mp4'' ?D ?h \<noteq> None" by (simp add: ev)
  then obtain d' e s6 where h: "handler_start ?E ''o.mp4'' ?D ?h = Some (d', e, s6)"
    by (cases "handler_start ?E ''o.mp4'' ?D ?h") auto
  note T = C4_fallback_edges [where E = ?E and s = ?h and fp = "''o.mp4''" and d = ?D
      and d' = d' and e = e and ?s6.0 = s6]
  from T h forced
  have A: "(\<exists>e'. fst (download ?E ''o.mp4'' ?D ?h) = Inl e')"
    and B: "length (filter is_master_call (new_calls ?h (snd (download ?E ''o.mp4'' ?D ?h))))
              = (if playlist_type ?h = ''hls'' then 2 else 1)"
      "length (filter is_hls_failed (new_out ?h (snd (download ?E ''o.mp4'' ?D ?h))))
              = (if playlist_type ?h = ''hls'' then 1 else 0)"
      "length (filter is_dash_failed (new_out ?h (snd (download ?E ''o.mp4'' ?D ?h)))) = 1"
    by blast+
  have tA: "playlist_type ?h = ''hls''" and tB: "playlist_type ?d \<noteq> ''hls''"
    by (simp_all add: example_state_def)
  have r: "dash_resolution ?D ?d = Inr ?res" by (simp add: dash_resolution_def)
  have q: "fst ?R = Inl ?e" by (simp add: ev)
  then have Q: "?R = (Inl ?e, snd ?R)" by (simp add: prod_eq_iff)
  have f: "fst (hls_fallback ?E ?tmp ?fp ?D ?e (snd ?R)) = Inl ?e'" by (simp add: ev)
  note U = C4_fallback_edges [where E = ?E and s = ?d and fp = "''o.mp4''" and d = ?D
      and res = ?res and e = ?e and ?s6.0 = "snd ?R" and e' = ?e']
  from U tB r Q f
  have C: "handler_start ?E ''o.mp4'' ?D ?d = Some (?D, ?e, snd ?R)"
    and D: "fst (download ?E ''o.mp4'' ?D ?d) = Inl ?e'"
    by blast+
  note V = C4_fallback_edges [where E = ?E and s = ?d and fp = "''o.mp4''" and d = ?D
      and d' = ?D and e = ?e and ?s6.0 = "snd ?R"]
  from V C have G: "length (filter is_master_call (new_calls ?d (snd (download ?E ''o.mp4'' ?D ?d))))
              = (if playlist_type ?d = ''hls'' then 2 else 1)"
    by blast
  from B tA have B': "length (filter is_master_call (new_calls ?h (snd (download ?E ''o.mp4'' ?D ?h)))) = 2"
      "length (filter is_hls_failed (new_out ?h (snd (download ?E ''o.mp4'' ?D ?h)))) = 1"
    by simp_all
  from G tB have G': "length (filter is_master_call (new_calls ?d (snd (download ?E ''o.mp4'' ?D ?d)))) = 1"
    by simp
  from q have q': "fst (dash_rest ?E ''o.mp4.part'' ''o.mp4'' ?res ?d) = Inl ?e"
    by (simp add: w(2))
  from forced hs A B' B(3) q' D G' show ?thesis by blast
qed

text \<open>
  Claim C4 as stated fails: the primary HLS attempt fails, the DASH attempt fails, and
  \<^verbatim>\<open>download()\<close> enters the HLS pipeline a second time, here with success.
\<close>

theorem C4_reentry_counterexample:
  "fst (download pingpong_env ''o.mp4'' (Some (Some 1280, 720)) (example_state ''hls'')) = Inr ()
   \<and> filter (\<lambda>c. is_master_call c \<or> is_mpd_call c)
        (calls (snd (download pingpong_env ''o.mp4'' (Some (Some 1280, 720))
                       (example_state ''hls''))))
      = [GetHlsMaster ''m.m3u8'', GetMpd ''m.mpd'', GetHlsMaster ''m.m3u8'']
   \<and> out (snd (download pingpong_env ''o.mp4'' (Some (Some 1280, 720)) (example_state ''hls'')))
      = [hls_failed_msg (LibraryError ''HTTPError'' ''503''),
         dash_failed_msg (LibraryError ''ConnectionError'' ''reset''),
         ''[*] Saved via HLS (fallback)'']
   \<and> fs (snd (download pingpong_env ''o.mp4'' (Some (Some 1280, 720)) (example_state ''hls'')))
        ''o.mp4'' = Some ''good''"
  by (simp add: model_defs example_defs pingpong_env_def example_variants select_variant_def
        height_leq_def v_res_def v_video_uri_def v_audio_uri_def dedup_segments_eq
        fetch_attempts.simps eval_nat_numeral hls_failed_msg_def dash_failed_msg_def)

subsection \<open>The attempts at a segment and the whole operation\<close>

lemma calls_funpow_log [simp]:
  "calls ((log_call c ^^ j) s) = calls s @ replicate j c"
  by (induction j) (simp_all add: replicate_append_same)

lemma fs_funpow_log [simp]: "fs ((log_call c ^^ j) s) = fs s"
  by (induction j) (simp_all add: log_call_def)

lemma out_funpow_log [simp]: "out ((log_call c ^^ j) s) = out s"
  by (induction j) (simp_all add: log_call_def)

lemma fetch_attempts_skip:
  "\<forall>i < j. chunked_at E (length (calls s) + i) u \<Longrightarrow>
   fetch_attempts (j + n) E u f s = fetch_attempts n E u f ((log_call (segment_call E u) ^^ j) s)"
proof (induction j arbitrary: s)
  case 0
  then show ?case by simp
next
  case (Suc j)
  let ?s1 = "log_call (segment_call E u) s"
  from Suc.prems have ch: "chunked_at E (length (calls s)) u" by force
  have "\<forall>i < j. chunked_at E (length (calls ?s1) + i) u"
    using Suc.prems by force
  from Suc.IH [OF this]
  have "fetch_attempts (j + n) E u f ?s1
          = fetch_attempts n E u f ((log_call (segment_call E u) ^^ j) ?s1)" .
  moreover have "fetch_attempts (Suc j + n) E u f s = fetch_attempts (j + n) E u f ?s1"
    using fetch_attempts_Suc_chunked [OF ch, of "j + n" f] by simp
  moreover have "(log_call (segment_call E u) ^^ j) ?s1 = (log_call (segment_call E u) ^^ Suc j) s"
    by (simp add: funpow_swap1)
  ultimately show ?case by (simp only:)
qed

lemma fetch_segment_other_at:
  assumes "j < 5" and "\<forall>i < j. chunked_at E (length (calls s) + i) u"
    and "segment_io E (length (calls s) + j) (segment_request_url E u) = Inl e"
    and "\<forall>m. e \<noteq> ChunkedEncodingError m"
  shows "fetch_segment E u f s = (Inl e, (log_call (segment_call E u) ^^ Suc j) s)"
proof -
  let ?sj = "(log_call (segment_call E u) ^^ j) s"
  from assms(1) obtain n where n: "5 = j + Suc n" by (metis add_Suc_right less_imp_Suc_add)
  have io: "segment_io E (length (calls ?sj)) (segment_request_url E u) = Inl e"
    using assms(3) by simp
  have "fetch_segment E u f s = fetch_attempts (Suc n) E u f ?sj"
    unfolding fetch_segment_def n by (rule fetch_attempts_skip [OF assms(2)])
  also have "\<dots> = (Inl e, log_call (segment_call E u) ?sj)"
    by (rule fetch_attempts_Suc_other [OF io assms(4)])
  finally show ?thesis by simp
qed

lemma fetch_segment_ok_at:
  assumes "j < 5" and "\<forall>i < j. chunked_at E (length (calls s) + i) u"
    and "segment_io E (length (calls s) + j) (segment_request_url E u) = Inr c"
  shows "fetch_segment E u f s
         = (Inr (), write_file f ((case fs s f of None \<Rightarrow> [] | Some old \<Rightarrow> old) @ c)
                      ((log_call (segment_call E u) ^^ Suc j) s))"
proof -
  let ?sj = "(log_call (segment_call E u) ^^ j) s"
  from assms(1) obtain n where n: "5 = j + Suc n" by (metis add_Suc_right less_imp_Suc_add)
  have io: "segment_io E (length (calls ?sj)) (segment_request_url E u) = Inr c"
    using assms(3) by simp
  have "fetch_segment E u f s = fetch_attempts (Suc n) E u f ?sj"
    unfolding fetch_segment_def n by (rule fetch_attempts_skip [OF assms(2)])
  also have "\<dots> = (Inr (), write_file f ((case fs ?sj f of None \<Rightarrow> [] | Some old \<Rightarrow> old) @ c)
                        (log_call (segment_call E u) ?sj))"
    by (rule fetch_attempts_Suc_ok [OF io])
  finally show ?thesis by simp
qed

lemma fetch_segment_calls:
  "\<exists>k. 1 \<le> k \<and> k \<le> 5
       \<and> calls (snd (fetch_segment E u f s)) = calls s @ replicate k (segment_call E u)
       \<and> (\<forall>j. Suc j < k \<longrightarrow> chunked_at E (length (calls s) + j) u)"
proof -
  from fetch_attempts_calls [of 5 E u f s] obtain k where k: "k \<le> 5"
    "calls (snd (fetch_attempts 5 E u f s)) = calls s @ replicate k (segment_call E u)"
    "\<forall>j. Suc j < k \<longrightarrow> chunked_at E (length (calls s) + j) u"
    by blast
  have "k \<noteq> 0"
  proof
    assume "k = 0"
    with k(2) have same: "calls (snd (fetch_attempts 5 E u f s)) = calls s" by simp
    let ?s1 = "log_call (segment_call E u) s"
    from fetch_attempts_calls [of 4 E u f ?s1] obtain k' where
      k': "calls (snd (fetch_attempts 4 E u f ?s1)) = calls ?s1 @ replicate k' (segment_call E u)"
      by blast
    have e5: "Suc 4 = 5" by simp
    have "length (calls s) < length (calls (snd (fetch_attempts 5 E u f s)))"
    proof (cases "segment_io E (length (calls s)) (segment_request_url E u)")
      case (Inr c)
      from fetch_attempts_Suc_ok [OF Inr, of 4 f, unfolded e5] show ?thesis by simp
    next
      case (Inl e)
      show ?thesis
      proof (cases "\<exists>m. e = ChunkedEncodingError m")
        case False
        then have "\<forall>m. e \<noteq> ChunkedEncodingError m" by blast
        from fetch_attempts_Suc_other [OF Inl this, of 4 f, unfolded e5] show ?thesis by simp
      next
        case True
        with Inl have "chunked_at E (length (calls s)) u" by (auto simp: chunked_at_def)
        from fetch_attempts_Suc_chunked [OF this, of 4 f, unfolded e5] k' show ?thesis by simp
      qed
    qed
    with same show False by simp
  qed
  with k show ?thesis unfolding fetch_segment_def by (intro exI [of _ k]) simp
qed

lemma fetch_each_append:
  "fetch_each E (pre @ us) f s = bind (fetch_each E pre f s) (\<lambda>u s1. fetch_each E us f s1)"
proof (induction pre arbitrary: s)
  case Nil
  then show ?case by (simp add: bind_def)
next
  case (Cons v pre)
  have "(\<lambda>(u :: unit). fetch_each E (pre @ us) f)
        = (\<lambda>u s. bind (fetch_each E pre f s) (\<lambda>u s1. fetch_each E us f s1))"
    by (intro ext) (rule Cons.IH)
  then show ?case by (simp add: bind_assoc)
qed

lemma fetch_segments_fails_at:
  assumes "dedup_segments xs = pre @ v # rest"
    and "fetch_each E pre f (write_file f [] s) = (Inr (), s1)"
    and "fst (fetch_segment E v f s1) = Inl e"
  shows "fetch_segments E xs f s = fetch_segment E v f s1"
proof -
  have "fetch_segments E xs f s = fetch_each E (v # rest) f s1"
    using assms(1,2) by (simp add: fetch_segments_def fetch_each_append bind_def)
  with fetch_each_first_fails [OF assms(3), of rest] show ?thesis by simp
qed

lemma fetch_each_trace:
  "\<exists>ks. length ks \<le> length us \<and> (\<forall>k \<in> set ks. 1 \<le> k \<and> k \<le> 5)
        \<and> calls (snd (fetch_each E us f s))
            = calls s @ concat (map (\<lambda>(v, k). replicate k (segment_call E v)) (zip us ks))
        \<and> (fst (fetch_each E us f s) = Inr () \<longrightarrow> length ks = length us)"
proof (induction us arbitrary: s)
  case Nil
  show ?case by (rule exI [of _ "[]"]) simp
next
  case (Cons u us)
  from fetch_segment_calls [of E u f s] obtain k where k: "1 \<le> k" "k \<le> 5"
    "calls (snd (fetch_segment E u f s)) = calls s @ replicate k (segment_call E u)"
    by blast
  show ?case
  proof (cases "fetch_segment E u f s")
    case (Pair r s1)
    show ?thesis
    proof (cases r)
      case (Inl e)
      with Pair have "fetch_each E (u # us) f s = (Inl e, s1)" by (simp add: bind_def)
      with Pair k show ?thesis by (intro exI [of _ "[k]"]) simp
    next
      case (Inr x)
      with Pair have eq: "fetch_each E (u # us) f s = fetch_each E us f s1" by (simp add: bind_def)
      from Cons.IH [of s1] obtain ks where ks: "length ks \<le> length us"
        "\<forall>k \<in> set ks. 1 \<le> k \<and> k \<le> 5"
        "calls (snd (fetch_each E us f s1))
            = calls s1 @ concat (map (\<lambda>(v, k). replicate k (segment_call E v)) (zip us ks))"
        "fst (fetch_each E us f s1) = Inr () \<longrightarrow> length ks = length us"
        by blast
      from Pair k(3) have c1: "calls s1 = calls s @ replicate k (segment_call E u)" by simp
      show ?thesis
        unfolding eq using ks k(1,2) c1 by (intro exI [of _ "k # ks"]) simp
    qed
  qed
qed


text \<open>
  Claim C7, as the code has it. \<^verbatim>\<open>_fetch_segment\<close> makes between 1 and 5 requests for its
  segment, and each one but the last failed with ChunkedEncodingError. Whatever else a
  request raises, at the first attempt or after earlier ones broke off, is raised at once
  and no further request is made; a request that succeeds ends the fetch with the content
  appended to the file. When all 5 fail with ChunkedEncodingError it raises
  SegmentDownloadError with the segment's URI in the message. \<^verbatim>\<open>_fetch_segments\<close> fetches
  the segments of its list in order: whatever the fetch of a segment raises, once the
  segments before it are fetched, ends \<^verbatim>\<open>_fetch_segments\<close> with that exception and without a
  request for a later segment, so a segment whose 5 attempts break off fails the whole
  operation with the SegmentDownloadError that names it. The requests made are, for some
  first segments of the list and in its order, between 1 and 5 requests each, and for all
  of its segments when the operation succeeds. The list is the input list without its
  empty URIs and with the duplicates collapsed to their first occurrence: when every
  request succeeds, these are the requests made, in this order, and \<open>[a, b, a, c, c]\<close>
  gives \<open>[a, b, c]\<close>.
\<close>

theorem C7_fetch_segments:
  "(\<exists>k. 1 \<le> k \<and> k \<le> 5
        \<and> calls (snd (fetch_segment E u f s)) = calls s @ replicate k (segment_call E u)
        \<and> (\<forall>j. Suc j < k \<longrightarrow> chunked_at E (length (calls s) + j) u))
   \<and> (\<forall>j e. j < 5 \<and> (\<forall>i < j. chunked_at E (length (calls s) + i) u)
          \<and> segment_io E (length (calls s) + j) (segment_request_url E u) = Inl e
          \<and> (\<forall>m. e \<noteq> ChunkedEncodingError m) \<longrightarrow>
          fst (fetch_segment E u f s) = Inl e
          \<and> calls (snd (fetch_segment E u f s)) = calls s @ replicate (Suc j) (segment_call E u)
          \<and> fs (snd (fetch_segment E u f s)) = fs s \<and> out (snd (fetch_segment E u f s)) = out s)
   \<and> (\<forall>j c. j < 5 \<and> (\<forall>i < j. chunked_at E (length (calls s) + i) u)
          \<and> segment_io E (length (calls s) + j) (segment_request_url E u) = Inr c \<longrightarrow>
          fst (fetch_segment E u f s) = Inr ()
          \<and> calls (snd (fetch_segment E u f s)) = calls s @ replicate (Suc j) (segment_call E u)
          \<and> fs (snd (fetch_segment E u f s)) f
              = Some ((case fs s f of None \<Rightarrow> [] | Some old \<Rightarrow> old) @ c))
   \<and> ((\<forall>j < 5. chunked_at E (length (calls s) + j) u) \<longrightarrow>
        fst (fetch_segment E u f s)
          = Inl (SegmentDownloadError (''Failed to download segment '' @ u))
        \<and> calls (snd (fetch_segment E u f s)) = calls s @ replicate 5 (segment_call E u))
   \<and> (\<forall>pre v rest s1 e.
        dedup_segments xs = pre @ v # rest
        \<and> fetch_each E pre f (write_file f [] s) = (Inr (), s1)
        \<and> fst (fetch_segment E v f s1) = Inl e \<longrightarrow>
          fetch_segments E xs f s = fetch_segment E v f s1)
   \<and> (\<forall>pre v rest s1.
        dedup_segments xs = pre @ v # rest
        \<and> fetch_each E pre f (write_file f [] s) = (Inr (), s1)
        \<and> (\<forall>j < 5. chunked_at E (length (calls s1) + j) v) \<longrightarrow>
          fst (fetch_segments E xs f s)
            = Inl (SegmentDownloadError (''Failed to download segment '' @ v))
          \<and> calls (snd (fetch_segments E xs f s)) = calls s1 @ replicate 5 (segment_call E v))
   \<and> (\<exists>ks. length ks \<le> length (dedup_segments xs) \<and> (\<forall>k \<in> set ks. 1 \<le> k \<and> k \<le> 5)
        \<and> calls (snd (fetch_segments E xs f s))
            = calls s @ concat (map (\<lambda>(v, k). replicate k (segment_call E v))
                                 (zip (dedup_segments xs) ks))
        \<and> (fst (fetch_segments E xs f s) = Inr () \<longrightarrow> length ks = length (dedup_segments xs)))
   \<and> dedup_segments xs = spec_collapse_duplicates (filter (\<lambda>v. v \<noteq> []) xs)
   \<and> ((\<forall>n v. \<exists>c. segment_io E n v = Inr c) \<longrightarrow>
        fst (fetch_segments E xs f s) = Inr ()
        \<and> calls (snd (fetch_segments E xs f s)) = calls s @ map (segment_call E) (dedup_segments xs))
   \<and> (a \<noteq> [] \<and> b \<noteq> [] \<and> c \<noteq> [] \<and> a \<noteq> b \<and> a \<noteq> c \<and> b \<noteq> c \<longrightarrow>
        dedup_segments [a, b, a, c, c] = [a, b, c])"
proof (intro conjI)
  show "\<exists>k. 1 \<le> k \<and> k \<le> 5
        \<and> calls (snd (fetch_segment E u f s)) = calls s @ replicate k (segment_call E u)
        \<and> (\<forall>j. Suc j < k \<longrightarrow> chunked_at E (length (calls s) + j) u)"
    by (rule fetch_segment_calls)
next
  show "\<forall>j e. j < 5 \<and> (\<forall>i < j. chunked_at E (length (calls s) + i) u)
          \<and> segment_io E (length (calls s) + j) (segment_request_url E u) = Inl e
          \<and> (\<forall>m. e \<noteq> ChunkedEncodingError m) \<longrightarrow>
          fst (fetch_segment E u f s) = Inl e
          \<and> calls (snd (fetch_segment E u f s)) = calls s @ replicate (Suc j) (segment_call E u)
          \<and> fs (snd (fetch_segment E u f s)) = fs s \<and> out (snd (fetch_segment E u f s)) = out s"
  proof (intro allI impI)
    fix j e
    assume h: "j < 5 \<and> (\<forall>i < j. chunked_at E (length (calls s) + i) u)
          \<and> segment_io E (length (calls s) + j) (segment_request_url E u) = Inl e
          \<and> (\<forall>m. e \<noteq> ChunkedEncodingError m)"
    then have "fetch_segment E u f s = (Inl e, (log_call (segment_call E u) ^^ Suc j) s)"
      by (intro fetch_segment_other_at) blast+
    then show "fst (fetch_segment E u f s) = Inl e
          \<and> calls (snd (fetch_segment E u f s)) = calls s @ replicate (Suc j) (segment_call E u)
          \<and> fs (snd (fetch_segment E u f s)) = fs s \<and> out (snd (fetch_segment E u f s)) = out s"
      by (simp only: fst_conv snd_conv calls_funpow_log fs_funpow_log out_funpow_log)
  qed
next
  show "\<forall>j c. j < 5 \<and> (\<forall>i < j. chunked_at E (length (calls s) + i) u)
          \<and> segment_io E (length (calls s) + j) (segment_request_url E u) = Inr c \<longrightarrow>
          fst (fetch_segment E u f s) = Inr ()
          \<and> calls (snd (fetch_segment E u f s)) = calls s @ replicate (Suc j) (segment_call E u)
          \<and> fs (snd (fetch_segment E u f s)) f
              = Some ((case fs s f of None \<Rightarrow> [] | Some old \<Rightarrow> old) @ c)"
  proof (intro allI impI)
    fix j c
    assume h: "j < 5 \<and> (\<forall>i < j. chunked_at E (length (calls s) + i) u)
          \<and> segment_io E (length (calls s) + j) (segment_request_url E u) = Inr c"
    then have "fetch_segment E u f s
         = (Inr (), write_file f ((case fs s f of None \<Rightarrow> [] | Some old \<Rightarrow> old) @ c)
                      ((log_call (segment_call E u) ^^ Suc j) s))"
      by (intro fetch_segment_ok_at) blast+
    then show "fst (fetch_segment E u f s) = Inr ()
          \<and> calls (snd (fetch_segment E u f s)) = calls s @ replicate (Suc j) (segment_call E u)
          \<and> fs (snd (fetch_segment E u f s)) f
              = Some ((case fs s f of None \<Rightarrow> [] | Some old \<Rightarrow> old) @ c)"
      by (simp only: fst_conv snd_conv calls_write_file calls_funpow_log)
         (simp add: write_file_def)
  qed
next
  show "(\<forall>j < 5. chunked_at E (length (calls s) + j) u) \<longrightarrow>
        fst (fetch_segment E u f s)
          = Inl (SegmentDownloadError (''Failed to download segment '' @ u))
        \<and> calls (snd (fetch_segment E u f s)) = calls s @ replicate 5 (segment_call E u)"
    unfolding fetch_segment_def by (rule impI) (rule fetch_attempts_exhaust)
next
  show "\<forall>pre v rest s1 e.
        dedup_segments xs = pre @ v # rest
        \<and> fetch_each E pre f (write_file f [] s) = (Inr (), s1)
        \<and> fst (fetch_segment E v f s1) = Inl e \<longrightarrow>
          fetch_segments E xs f s = fetch_segment E v f s1"
    using fetch_segments_fails_at by blast
next
  show "\<forall>pre v rest s1.
        dedup_segments xs = pre @ v # rest
        \<and> fetch_each E pre f (write_file f [] s) = (Inr (), s1)
        \<and> (\<forall>j < 5. chunked_at E (length (calls s1) + j) v) \<longrightarrow>
          fst (fetch_segments E xs f s)
            = Inl (SegmentDownloadError (''Failed to download segment '' @ v))
          \<and> calls (snd (fetch_segments E xs f s)) = calls s1 @ replicate 5 (segment_call E v)"
  proof (intro allI impI)
    fix pre v rest s1
    assume h: "dedup_segments xs = pre @ v # rest
        \<and> fetch_each E pre f (write_file f [] s) = (Inr (), s1)
        \<and> (\<forall>j < 5. chunked_at E (length (calls s1) + j) v)"
    then have "\<forall>j < 5. chunked_at E (length (calls s1) + j) v" by blast
    from fetch_attempts_exhaust [OF this, of f]
    have x: "fst (fetch_segment E v f s1)
               = Inl (SegmentDownloadError (''Failed to download segment '' @ v))"
      and c: "calls (snd (fetch_segment E v f s1)) = calls s1 @ replicate 5 (segment_call E v)"
      by (simp_all only: fetch_segment_def)
    from h x have "fetch_segments E xs f s = fetch_segment E v f s1"
      by (intro fetch_segments_fails_at) blast+
    with x c show "fst (fetch_segments E xs f s)
            = Inl (SegmentDownloadError (''Failed to download segment '' @ v))
          \<and> calls (snd (fetch_segments E xs f s)) = calls s1 @ replicate 5 (segment_call E v)"
      by (simp only:)
  qed
next
  from fetch_each_trace [of "dedup_segments xs" E f "write_file f [] s"]
  show "\<exists>ks. length ks \<le> length (dedup_segments xs) \<and> (\<forall>k \<in> set ks. 1 \<le> k \<and> k \<le> 5)
        \<and> calls (snd (fetch_segments E xs f s))
            = calls s @ concat (map (\<lambda>(v, k). replicate k (segment_call E v))
                                 (zip (dedup_segments xs) ks))
        \<and> (fst (fetch_segments E xs f s) = Inr () \<longrightarrow> length ks = length (dedup_segments xs))"
    by (simp only: fetch_segments_def calls_write_file)
next
  show "dedup_segments xs = spec_collapse_duplicates (filter (\<lambda>v. v \<noteq> []) xs)"
    by (rule dedup_segments_eq)
next
  show "(\<forall>n v. \<exists>c. segment_io E n v = Inr c) \<longrightarrow>
        fst (fetch_segments E xs f s) = Inr ()
        \<and> calls (snd (fetch_segments E xs f s)) = calls s @ map (segment_call E) (dedup_segments xs)"
    using fetch_each_all_ok [of E "dedup_segments xs" f "write_file f [] s"]
    by (simp add: fetch_segments_def)
next
  show "a \<noteq> [] \<and> b \<noteq> [] \<and> c \<noteq> [] \<and> a \<noteq> b \<and> a \<noteq> c \<and> b \<noteq> c \<longrightarrow>
        dedup_segments [a, b, a, c, c] = [a, b, c]"
    using dedup_example by blast
qed

text \<open>
  In the example world \<open>[a, b, a, c, c]\<close> is requested as \<open>a\<close>, \<open>b\<close>, \<open>c\<close>. In a world
  where the first request breaks off and every request for \<open>b\<close> does, \<open>a\<close> is fetched at
  the second attempt, the 5 attempts at \<open>b\<close> are used up, and the operation ends with the
  SegmentDownloadError that names \<open>b\<close>, without a request for \<open>c\<close>.
\<close>

theorem C7_fetch_segments_witness:
  "(\<forall>n v. \<exists>c. segment_io example_env n v = Inr c)
   \<and> calls (snd (fetch_segments example_env [''a'', ''b'', ''a'', ''c'', ''c''] ''f''
                  (example_state ''dash'')))
      = [GetSegment ''a'', GetSegment ''b'', GetSegment ''c'']
   \<and> dedup_segments [''a'', ''b'', ''a'', ''c'', ''c''] = [''a''] @ ''b'' # [''c'']
   \<and> fst (fetch_each flaky_env [''a''] ''f'' (write_file ''f'' [] (example_state ''dash''))) = Inr ()
   \<and> calls (snd (fetch_each flaky_env [''a''] ''f'' (write_file ''f'' [] (example_state ''dash''))))
      = [GetSegment ''a'', GetSegment ''a'']
   \<and> fst (fetch_segments flaky_env [''a'', ''b'', ''a'', ''c'', ''c''] ''f'' (example_state ''dash''))
      = Inl (SegmentDownloadError ''Failed to download segment b'')
   \<and> calls (snd (fetch_segments flaky_env [''a'', ''b'', ''a'', ''c'', ''c''] ''f''
                  (example_state ''dash'')))
      = [GetSegment ''a'', GetSegment ''a'', GetSegment ''b'', GetSegment ''b'', GetSegment ''b'',
         GetSegment ''b'', GetSegment ''b'']"
proof -
  let ?xs = "[''a'', ''b'', ''a'', ''c'', ''c'']"
  let ?d = "example_state ''dash''"
  let ?s0 = "write_file ''f'' [] ?d"
  let ?A = "fetch_each flaky_env [''a''] ''f'' ?s0"
  have ok: "\<forall>n v. \<exists>c. segment_io example_env n v = Inr c"
    by (simp add: example_env_def)
  have ne: "''a'' \<noteq> [] \<and> ''b'' \<noteq> [] \<and> ''c'' \<noteq> [] \<and> ''a'' \<noteq> ''b'' \<and> ''a'' \<noteq> ''c''
            \<and> ''b'' \<noteq> ''c''"
    by simp
  note T = C7_fetch_segments [where a = "''a''" and b = "''b''" and c = "''c''" and xs = ?xs
      and f = "''f''" and s = ?d]
  from T [where E = example_env] ok ne
  have c: "calls (snd (fetch_segments example_env ?xs ''f'' ?d))
      = calls ?d @ map (segment_call example_env) (dedup_segments ?xs)"
    and d: "dedup_segments ?xs = [''a'', ''b'', ''c'']"
    by blast+
  have u: "segment_call example_env v = GetSegment v" if "\<not> prefix ''http'' v" for v
    using that by (simp add: segment_call_def segment_request_url_def example_env_def)
  have uf: "segment_call flaky_env v = GetSegment v" if "\<not> prefix ''http'' v" for v
    using that
    by (simp add: segment_call_def segment_request_url_def flaky_env_def example_env_def)
  have e: "calls ?d = []" by (simp add: example_state_def)
  from c d e have c': "calls (snd (fetch_segments example_env ?xs ''f'' ?d))
      = [GetSegment ''a'', GetSegment ''b'', GetSegment ''c'']"
    by (simp add: u)
  have d': "dedup_segments ?xs = [''a''] @ ''b'' # [''c'']" using d by simp
  have ch0: "chunked_at flaky_env (length (calls ?s0)) ''a''"
    by (simp add: chunked_at_def flaky_env_def e)
  have ok1: "segment_io flaky_env (length (calls ?s0) + 1) (segment_request_url flaky_env ''a'')
               = Inr ''a''"
    by (simp add: flaky_env_def segment_request_url_def example_env_def e)
  have pre: "(1 :: nat) < 5 \<and> (\<forall>i < 1. chunked_at flaky_env (length (calls ?s0) + i) ''a'')
             \<and> segment_io flaky_env (length (calls ?s0) + 1)
                  (segment_request_url flaky_env ''a'') = Inr ''a''"
    using ch0 ok1 by simp
  note S = C7_fetch_segments [where E = flaky_env and u = "''a''" and f = "''f''" and s = ?s0,
      THEN conjunct2, THEN conjunct2, THEN conjunct1, rule_format, OF pre]
  from S have a1: "fst (fetch_segment flaky_env ''a'' ''f'' ?s0) = Inr ()"
    and a2: "calls (snd (fetch_segment flaky_env ''a'' ''f'' ?s0))
               = calls ?s0 @ replicate (Suc 1) (segment_call flaky_env ''a'')"
    by blast+
  have A: "?A = fetch_segment flaky_env ''a'' ''f'' ?s0"
    using a1 by (cases "fetch_segment flaky_env ''a'' ''f'' ?s0") (simp add: bind_def)
  from a1 a2 e have A1: "fst ?A = Inr ()"
    and A2: "calls (snd ?A) = [GetSegment ''a'', GetSegment ''a'']"
    unfolding A by (simp_all add: uf)
  have AA: "?A = (Inr (), snd ?A)" using A1 by (simp add: prod_eq_iff)
  have chb: "\<forall>j < 5. chunked_at flaky_env (length (calls (snd ?A)) + j) ''b''"
    by (simp add: chunked_at_def flaky_env_def segment_request_url_def example_env_def)
  from T [where E = flaky_env] d' AA chb
  have b1: "fst (fetch_segments flaky_env ?xs ''f'' ?d)
              = Inl (SegmentDownloadError (''Failed to download segment '' @ ''b''))"
    and b2: "calls (snd (fetch_segments flaky_env ?xs ''f'' ?d))
              = calls (snd ?A) @ replicate 5 (segment_call flaky_env ''b'')"
    by blast+
  from b1 have b1': "fst (fetch_segments flaky_env ?xs ''f'' ?d)
              = Inl (SegmentDownloadError ''Failed to download segment b'')"
    by simp
  from b2 A2 have b2': "calls (snd (fetch_segments flaky_env ?xs ''f'' ?d))
      = [GetSegment ''a'', GetSegment ''a'', GetSegment ''b'', GetSegment ''b'', GetSegment ''b'',
         GetSegment ''b'', GetSegment ''b'']"
    by (simp add: uf eval_nat_numeral)
  from ok c' d' A1 A2 b1' b2' show ?thesis by blast
qed

text \<open>
  Claim C7 as stated fails on a list with an empty URI: line 283 drops it, and collapsing
  the duplicates keeps it.
\<close>

theorem C7_dedup_counterexample:
  "dedup_segments [[], ''a''] = [''a''] \<and> spec_collapse_duplicates [[], ''a''] = [[], ''a'']"
  by (simp add: dedup_segments_eq)

subsection \<open>The segment lists that are resolved\<close>













end
